(* ===== verification/Prelude.thy ===== *)
theory Prelude
  imports Main "HOL-Library.Sublist" "HOL-Library.Word"
begin

text \<open>
  Shared vocabulary of the development: the names of the model's basic types, the
  collections of rewrite rules that the component theories extend, and the generic
  facts on lists that several components use (windows of a string, the last \<open>n\<close>
  elements of a list, filtering by key).
\<close>

section \<open>Types of the model\<close>

type_synonym url = string
type_synonym cache_name = string
type_synonym request_key = string
type_synonym time = nat \<comment> \<open>seconds since an arbitrary epoch\<close>
type_synonym byte = "8 word"
type_synonym header = "string \<times> string"

text \<open>Removing the element at a position (JavaScript \<open>splice(i, 1)\<close>).\<close>

definition remove_nth :: "nat \<Rightarrow> 'a list \<Rightarrow> 'a list" where
  "remove_nth i xs = take i xs @ drop (Suc i) xs"

section \<open>Rule collections\<close>

named_theorems regex_simps \<open>characterisations of the regular expressions used as route patterns\<close>
named_theorems store_simps \<open>behaviour of the cache store operations\<close>
named_theorems handler_simps \<open>behaviour of the strategy handlers on each branch\<close>

section \<open>Windows of a list\<close>

text \<open>
  A regular-expression literal matches at position \<open>i\<close> of a string when the window of
  the string starting at \<open>i\<close> begins with the literal.
\<close>

lemma take_drop_append_iff:
  "take (length (u @ v)) (drop i s) = u @ v \<longleftrightarrow>
     take (length u) (drop i s) = u \<and> take (length v) (drop (i + length u) s) = v"
proof -
  have split: "take (length (u @ v)) (drop i s) =
          take (length u) (drop i s) @ take (length v) (drop (i + length u) s)"
    by (simp add: take_add add.commute)
  show ?thesis
  proof (cases "length (take (length u) (drop i s)) = length u")
    case True
    then show ?thesis unfolding split by simp
  next
    case False
    then have "length (take (length (u @ v)) (drop i s)) < length (u @ v)" by simp
    then have "take (length (u @ v)) (drop i s) \<noteq> u @ v" by (metis less_irrefl)
    with False show ?thesis by auto
  qed
qed

lemma window_at_end_iff_suffix:
  "(\<exists>i. take (length w) (drop i s) = w \<and> i + length w = length s) \<longleftrightarrow> suffix w s"
proof
  assume "\<exists>i. take (length w) (drop i s) = w \<and> i + length w = length s"
  then obtain i where w: "take (length w) (drop i s) = w" and len: "i + length w = length s"
    by blast
  from len have "drop i s = w" using w by simp
  then have "s = take i s @ w" by (metis append_take_drop_id)
  then show "suffix w s" unfolding suffix_def by blast
next
  assume "suffix w s"
  then obtain u where s: "s = u @ w" unfolding suffix_def by blast
  then have "take (length w) (drop (length u) s) = w \<and> length u + length w = length s"
    by simp
  then show "\<exists>i. take (length w) (drop i s) = w \<and> i + length w = length s" by blast
qed

lemma window_at_end_eq_suffix:
  "i + length w = length s \<Longrightarrow> take (length w) (drop i s) = w \<longleftrightarrow> suffix w s"
  by (metis window_at_end_iff_suffix add_diff_cancel_right' append_eq_conv_conj length_append
      suffix_def)

lemma window_at_start_iff_prefix:
  "take (length w) (drop 0 s) = w \<longleftrightarrow> prefix w s"
  by (auto simp: prefix_def) (metis append_take_drop_id)

lemma list_ex_upt_Suc_iff: "list_ex P [0..<Suc n] \<longleftrightarrow> (\<exists>i \<le> n. P i)"
proof -
  have "set [0..<Suc n] = {i. i \<le> n}" by auto
  then show ?thesis by (auto simp: list_ex_iff)
qed

lemma suffix_append_self [simp]: "suffix ys (xs @ ys)"
  by (simp add: suffix_def)

lemma suffixes_disjoint: "\<not> suffix xs ys \<Longrightarrow> \<not> suffix ys xs \<Longrightarrow> \<not> (suffix xs u \<and> suffix ys u)"
  using suffix_same_cases by blast

lemma prefixes_disjoint: "\<not> prefix xs ys \<Longrightarrow> \<not> prefix ys xs \<Longrightarrow> \<not> (prefix xs u \<and> prefix ys u)"
  using prefix_same_cases by blast

section \<open>Removing one element\<close>

lemma set_remove_nth: "set (remove_nth i xs) \<subseteq> set xs"
  by (auto simp: remove_nth_def dest: in_set_takeD in_set_dropD)

lemma length_remove_nth: "i < length xs \<Longrightarrow> length (remove_nth i xs) = length xs - 1"
  by (simp add: remove_nth_def)

lemma subseq_remove_nth: "subseq (remove_nth i xs) xs"
proof -
  have "subseq (drop (Suc i) xs) (drop i xs)"
  proof (rule suffix_imp_subseq)
    have "drop (Suc i) xs = drop 1 (drop i xs)" by simp
    then show "suffix (drop (Suc i) xs) (drop i xs)" by (simp only: suffix_drop)
  qed
  then have "subseq (take i xs @ drop (Suc i) xs) (take i xs @ drop i xs)"
    by (rule list_emb_append_mono [OF subseq_order.refl])
  then show ?thesis by (simp add: remove_nth_def)
qed

section \<open>Keeping the last elements of a list\<close>

lemma drop_length_minus_length [simp]:
  "length (drop (length xs - n) xs) = min n (length xs)"
  by simp

lemma drop_length_minus_suffix:
  "suffix (drop (length xs - n) xs) xs"
  by (rule suffix_drop)

lemma last_n_append:
  "drop (length (drop (length xs - n) xs @ ys) - n) (drop (length xs - n) xs @ ys) =
   drop (length (xs @ ys) - n) (xs @ ys)"
proof -
  have "length xs + length ys - (length xs - n + n) + (length xs - n) = length xs + length ys - n"
    by arith
  then show ?thesis by (simp add: drop_append min_def)
qed

text \<open>
  Filtering a list sorted by \<open>f\<close> with a predicate that, once true, stays true for
  larger values of \<open>f\<close> removes a prefix.
\<close>

lemma filter_upward_closed_sorted:
  assumes "sorted (map f xs)" and "\<And>x y. P x \<Longrightarrow> f x \<le> f y \<Longrightarrow> P y"
  shows "filter P xs = dropWhile (\<lambda>x. \<not> P x) xs"
  using assms(1)
proof (induction xs)
  case Nil
  then show ?case by simp
next
  case (Cons x xs)
  show ?case
  proof (cases "P x")
    case True
    with Cons.prems assms(2) have "\<forall>y \<in> set xs. P y" by auto
    with True show ?thesis by simp
  next
    case False
    with Cons show ?thesis by simp
  qed
qed

lemma drop_length_minus_append_last:
  "0 < n \<Longrightarrow> drop (length (xs @ [x]) - n) (xs @ [x]) = drop (length xs - (n - 1)) xs @ [x]"
  by (cases n) (simp_all add: Suc_diff_le)

end
