(* ===== verification/Regex.thy ===== *)
theory Regex
  imports Prelude
begin

text \<open>
  The fragment of JavaScript regular expressions that the route patterns of
  \<open>src/static/service-worker.js\<close> are written in: literal characters (with escaped
  metacharacters such as \<open>\.\<close> and \<open>\/\<close> read as the character itself), a
  non-capturing group of alternatives \<open>(?:a|b)\<close>, concatenation, and the anchors
  \<open>^\<close> and \<open>$\<close> (no \<open>m\<close> flag, so they mean the start and the end of the input).
  \<open>rx_ends r s i\<close> lists the positions at which a match of \<open>r\<close> that starts at
  position \<open>i\<close> of \<open>s\<close> can end, in the backtracking order of the JavaScript
  engine; \<open>regex_test r s\<close> is \<open>r.test(s)\<close>: some start position from \<open>0\<close> to
  the length of \<open>s\<close> admits a match. \<open>rx_matches\<close> is the reference semantics as
  an inductive relation on start and end positions; the matcher computes exactly it.
\<close>

datatype rx =
    Lit string        \<comment> \<open>a run of literal characters\<close>
  | Alt "rx list"     \<comment> \<open>\<open>(?:r1|r2|...)\<close>\<close>
  | Cat "rx list"     \<comment> \<open>\<open>r1 r2 ...\<close>\<close>
  | Line_start        \<comment> \<open>\<open>^\<close>\<close>
  | Line_end          \<comment> \<open>\<open>$\<close>\<close>

fun rx_ends :: "rx \<Rightarrow> string \<Rightarrow> nat \<Rightarrow> nat list"
  and rx_alt_ends :: "rx list \<Rightarrow> string \<Rightarrow> nat \<Rightarrow> nat list"
  and rx_seq_ends :: "rx list \<Rightarrow> string \<Rightarrow> nat \<Rightarrow> nat list" where
  "rx_ends (Lit w) s i = (if take (length w) (drop i s) = w then [i + length w] else [])"
| "rx_ends (Alt rs) s i = rx_alt_ends rs s i"
| "rx_ends (Cat rs) s i = rx_seq_ends rs s i"
| "rx_ends Line_start s i = (if i = 0 then [i] else [])"
| "rx_ends Line_end s i = (if i = length s then [i] else [])"
| "rx_alt_ends [] s i = []"
| "rx_alt_ends (r # rs) s i = rx_ends r s i @ rx_alt_ends rs s i"
| "rx_seq_ends [] s i = [i]"
| "rx_seq_ends (r # rs) s i = concat (map (\<lambda>j. rx_seq_ends rs s j) (rx_ends r s i))"

definition regex_test :: "rx \<Rightarrow> string \<Rightarrow> bool" where
  "regex_test r s = list_ex (\<lambda>i. rx_ends r s i \<noteq> []) [0..<Suc (length s)]"

text \<open>
  The reference semantics: \<open>rx_matches r s i j\<close> holds when \<open>r\<close> matches the part of
  \<open>s\<close> from position \<open>i\<close> to position \<open>j\<close>. The matcher \<open>rx_ends\<close> lists exactly
  these \<open>j\<close> (\<open>rx_ends_iff_matches\<close>).
\<close>

inductive rx_matches :: "rx \<Rightarrow> string \<Rightarrow> nat \<Rightarrow> nat \<Rightarrow> bool"
  and rx_seq_matches :: "rx list \<Rightarrow> string \<Rightarrow> nat \<Rightarrow> nat \<Rightarrow> bool" where
  lit: "take (length w) (drop i s) = w \<Longrightarrow> rx_matches (Lit w) s i (i + length w)"
| alt: "r \<in> set rs \<Longrightarrow> rx_matches r s i j \<Longrightarrow> rx_matches (Alt rs) s i j"
| cat: "rx_seq_matches rs s i j \<Longrightarrow> rx_matches (Cat rs) s i j"
| line_start: "rx_matches Line_start s 0 0"
| line_end: "rx_matches Line_end s (length s) (length s)"
| seq_nil: "rx_seq_matches [] s i i"
| seq_cons: "rx_matches r s i k \<Longrightarrow> rx_seq_matches rs s k j \<Longrightarrow> rx_seq_matches (r # rs) s i j"

inductive_simps rx_matches_simps:
  "rx_matches (Lit w) s i j" "rx_matches (Alt rs) s i j" "rx_matches (Cat rs) s i j"
  "rx_matches Line_start s i j" "rx_matches Line_end s i j"
  "rx_seq_matches [] s i j" "rx_seq_matches (r # rs) s i j"

section \<open>Match positions\<close>

lemma set_rx_alt_ends [simp]:
  "set (rx_alt_ends rs s i) = (\<Union>r \<in> set rs. set (rx_ends r s i))"
  by (induction rs) auto

lemma set_rx_seq_ends_Cons [simp]:
  "set (rx_seq_ends (r # rs) s i) = (\<Union>k \<in> set (rx_ends r s i). set (rx_seq_ends rs s k))"
  by auto

lemma rx_ends_nonempty_iff: "rx_ends r s i \<noteq> [] \<longleftrightarrow> (\<exists>j. j \<in> set (rx_ends r s i))"
  by (cases "rx_ends r s i") auto

lemma regex_test_iff: "regex_test r s \<longleftrightarrow> (\<exists>i \<le> length s. \<exists>j. j \<in> set (rx_ends r s i))"
  unfolding regex_test_def list_ex_upt_Suc_iff rx_ends_nonempty_iff ..

lemma lit_ends_iff [simp]:
  "j \<in> set (rx_ends (Lit w) s i) \<longleftrightarrow> take (length w) (drop i s) = w \<and> j = i + length w"
  by auto

lemma rx_ends_iff_matches:
  "j \<in> set (rx_ends r s i) \<longleftrightarrow> rx_matches r s i j"
  "j \<in> set (rx_alt_ends rs s i) \<longleftrightarrow> (\<exists>r \<in> set rs. rx_matches r s i j)"
  "j \<in> set (rx_seq_ends rs s i) \<longleftrightarrow> rx_seq_matches rs s i j"
  by (induction r s i and rs s i and rs s i arbitrary: j and j and j rule: rx_ends_rx_alt_ends_rx_seq_ends.induct)
    (auto simp: rx_matches_simps)

lemma regex_test_iff_matches: "regex_test r s \<longleftrightarrow> (\<exists>i \<le> length s. \<exists>j. rx_matches r s i j)"
  by (simp add: regex_test_iff rx_ends_iff_matches)

section \<open>The two shapes of pattern the route table uses\<close>

text \<open>
  A pattern \<open>/^lit/\<close> tests whether the input starts with \<open>lit\<close>; \<open>/lit$/\<close>
  whether it ends with \<open>lit\<close>; \<open>/lit(?:a1|...|an)$/\<close> whether it ends with
  \<open>lit\<close> followed by one of the alternatives.
\<close>

lemma anchored_lit_ends:
  "j \<in> set (rx_ends (Cat [Line_start, Lit w]) s i) \<longleftrightarrow> i = 0 \<and> prefix w s \<and> j = length w"
  using window_at_start_iff_prefix [of w s] by auto

lemma lit_end_ends:
  "j \<in> set (rx_ends (Cat [Lit w, Line_end]) s i) \<longleftrightarrow> suffix w s \<and> i + length w = length s \<and> j = length s"
  using window_at_end_eq_suffix [of i w s] by auto

lemma lit_alts_end_ends:
  "j \<in> set (rx_ends (Cat [Lit w, Alt (map Lit alts), Line_end]) s i) \<longleftrightarrow>
     (\<exists>a \<in> set alts. take (length (w @ a)) (drop i s) = w @ a \<and> i + length (w @ a) = length s)
     \<and> j = length s"
proof -
  let ?r = "Cat [Lit w, Alt (map Lit alts), Line_end]"
  have ends: "j' \<in> set (rx_ends ?r s i) \<Longrightarrow> j' = length s" for j' by auto
  have "(\<exists>j'. j' \<in> set (rx_ends ?r s i)) \<longleftrightarrow>
      (\<exists>a \<in> set alts. take (length (w @ a)) (drop i s) = w @ a \<and> i + length (w @ a) = length s)"
    unfolding take_drop_append_iff by (auto simp: add.assoc)
  with ends show ?thesis by blast
qed

lemma regex_test_anchored_lit [regex_simps]:
  "regex_test (Cat [Line_start, Lit w]) s \<longleftrightarrow> prefix w s"
  by (auto simp: regex_test_iff window_at_start_iff_prefix [symmetric])

lemma bounded_start_iff:
  "(\<exists>i \<le> length s. P i \<and> i + n = length s) \<longleftrightarrow> (\<exists>i. P i \<and> i + n = length s)"
  by (metis le_add1)

lemma regex_test_lit_end [regex_simps]:
  "regex_test (Cat [Lit w, Line_end]) s \<longleftrightarrow> suffix w s"
proof -
  have "\<And>i. (\<exists>j. j \<in> set (rx_ends (Cat [Lit w, Line_end]) s i)) \<longleftrightarrow>
          take (length w) (drop i s) = w \<and> i + length w = length s"
    by auto
  then have "regex_test (Cat [Lit w, Line_end]) s \<longleftrightarrow>
          (\<exists>i \<le> length s. take (length w) (drop i s) = w \<and> i + length w = length s)"
    by (simp only: regex_test_iff)
  also have "\<dots> \<longleftrightarrow> suffix w s"
    by (simp only: bounded_start_iff window_at_end_iff_suffix)
  finally show ?thesis .
qed

lemma regex_test_lit_alts_end [regex_simps]:
  "regex_test (Cat [Lit w, Alt (map Lit alts), Line_end]) s \<longleftrightarrow> (\<exists>a \<in> set alts. suffix (w @ a) s)"
proof -
  have "\<And>i. (\<exists>j. j \<in> set (rx_ends (Cat [Lit w, Alt (map Lit alts), Line_end]) s i)) \<longleftrightarrow>
          (\<exists>a \<in> set alts. take (length (w @ a)) (drop i s) = w @ a \<and> i + length (w @ a) = length s)"
    by (simp only: lit_alts_end_ends) blast
  then have "regex_test (Cat [Lit w, Alt (map Lit alts), Line_end]) s \<longleftrightarrow>
          (\<exists>i \<le> length s. \<exists>a \<in> set alts.
             take (length (w @ a)) (drop i s) = w @ a \<and> i + length (w @ a) = length s)"
    by (simp only: regex_test_iff)
  also have "\<dots> \<longleftrightarrow> (\<exists>a \<in> set alts. \<exists>i \<le> length s.
             take (length (w @ a)) (drop i s) = w @ a \<and> i + length (w @ a) = length s)"
    by blast
  also have "\<dots> \<longleftrightarrow> (\<exists>a \<in> set alts. suffix (w @ a) s)"
    by (simp only: bounded_start_iff window_at_end_iff_suffix)
  finally show ?thesis .
qed

end
