(* ===== verification/Http.thy ===== *)
theory Http
  imports Prelude
begin

text \<open>
  The data the caching engine exchanges with its host (spec, sections 3 and 6): the
  request descriptor delivered by the worker's interception mechanism, the response
  stored and returned, the outcome of a network fetch, and the error surfaced to the
  caller when neither the cache nor the network has a response.
\<close>

record request =
  req_url :: url
  req_method :: string
  req_headers :: "header list"

record response =
  status :: nat
  resp_headers :: "header list"
  body :: "byte list"

datatype fetch_result = Fetched response | Network_error

datatype sw_error = Fetch_failed

text \<open>The key under which a request's response is stored: its URL.\<close>

definition request_key :: "request \<Rightarrow> request_key" where
  "request_key r = req_url r"

end
