(* ===== verification/Cache_Store.thy ===== *)
theory Cache_Store
  imports Http
begin

text \<open>
  The Cache Store (spec, sections 3 and 4): named caches, each an ordered sequence of
  entries whose order is insertion order, created lazily on the first write. Writing a
  key that is already present replaces its entry, and the new entry becomes the most
  recent one. The store refines the abstract map from keys to responses
  (\<open>cache_match\<close> of \<open>cache_put\<close> is a map update), and keeps keys distinct and
  insertion times in order.
\<close>

record cache_entry =
  entry_key :: request_key
  entry_response :: response
  inserted_at :: time

type_synonym named_cache = "cache_entry list"
type_synonym storage = "cache_name \<rightharpoonup> named_cache"

definition cache_match :: "named_cache \<Rightarrow> request_key \<Rightarrow> response option" where
  "cache_match es k = map_option entry_response (find (\<lambda>e. entry_key e = k) es)"

definition cache_put :: "request_key \<Rightarrow> response \<Rightarrow> time \<Rightarrow> named_cache \<Rightarrow> named_cache" where
  "cache_put k r now es =
     filter (\<lambda>e. entry_key e \<noteq> k) es @ [\<lparr>entry_key = k, entry_response = r, inserted_at = now\<rparr>]"

definition open_cache :: "storage \<Rightarrow> cache_name \<Rightarrow> named_cache" where
  "open_cache st n = (case st n of None \<Rightarrow> [] | Some es \<Rightarrow> es)"

definition storage_match :: "storage \<Rightarrow> cache_name \<Rightarrow> request_key \<Rightarrow> response option" where
  "storage_match st n k = (case st n of None \<Rightarrow> None | Some es \<Rightarrow> cache_match es k)"

section \<open>Invariant of a named cache\<close>

definition cache_wf :: "named_cache \<Rightarrow> bool" where
  "cache_wf es \<longleftrightarrow> distinct (map entry_key es) \<and> sorted (map inserted_at es)"

definition times_le :: "named_cache \<Rightarrow> time \<Rightarrow> bool" where
  "times_le es now \<longleftrightarrow> (\<forall>e \<in> set es. inserted_at e \<le> now)"

section \<open>Lookup\<close>

lemma cache_match_Nil [simp, store_simps]: "cache_match [] k = None"
  by (simp add: cache_match_def)

lemma cache_match_single [store_simps]:
  "cache_match [e] k = (if entry_key e = k then Some (entry_response e) else None)"
  by (simp add: cache_match_def)

lemma cache_match_append [store_simps]:
  "cache_match (xs @ ys) k = (case cache_match xs k of None \<Rightarrow> cache_match ys k | Some r \<Rightarrow> Some r)"
  by (induction xs) (auto simp: cache_match_def split: option.splits)

lemma cache_match_filter_other [store_simps]:
  "cache_match (filter (\<lambda>e. entry_key e \<noteq> k) es) k' = (if k' = k then None else cache_match es k')"
  by (induction es) (auto simp: cache_match_def)

lemma cache_match_Some_in:
  "cache_match es k = Some r \<Longrightarrow> \<exists>e \<in> set es. entry_key e = k \<and> entry_response e = r"
  by (auto simp: cache_match_def find_Some_iff dest: nth_mem)

lemma cache_match_None_iff: "cache_match es k = None \<longleftrightarrow> k \<notin> entry_key ` set es"
  by (auto simp: cache_match_def find_None_iff)

lemma cache_match_in_distinct:
  "distinct (map entry_key es) \<Longrightarrow> e \<in> set es \<Longrightarrow> cache_match es (entry_key e) = Some (entry_response e)"
  by (induction es) (auto simp: cache_match_def)

lemma storage_match_open_cache: "storage_match st n k = cache_match (open_cache st n) k"
  by (simp add: storage_match_def open_cache_def split: option.split)

section \<open>Write\<close>

lemma cache_put_match [store_simps]:
  "cache_match (cache_put k r now es) = (cache_match es)(k \<mapsto> r)"
  by (rule ext) (simp add: cache_put_def cache_match_append cache_match_filter_other
      cache_match_single split: option.split)

lemma cache_put_fresh:
  "k \<notin> entry_key ` set es \<Longrightarrow>
     cache_put k r now es = es @ [\<lparr>entry_key = k, entry_response = r, inserted_at = now\<rparr>]"
  by (auto simp: cache_put_def intro: filter_True)

lemma set_cache_put:
  "set (cache_put k r now es) =
     {e \<in> set es. entry_key e \<noteq> k} \<union> {\<lparr>entry_key = k, entry_response = r, inserted_at = now\<rparr>}"
  by (auto simp: cache_put_def)

lemma keys_cache_put [simp]:
  "entry_key ` set (cache_put k r now es) = insert k (entry_key ` set es)"
  by (auto simp: cache_put_def)

lemma cache_put_wf:
  "cache_wf es \<Longrightarrow> times_le es now \<Longrightarrow> cache_wf (cache_put k r now es)"
  by (auto simp: cache_wf_def times_le_def cache_put_def distinct_map_filter sorted_append
      sorted_filter [where f = inserted_at])

lemma cache_put_times_le:
  "times_le es now \<Longrightarrow> now \<le> now' \<Longrightarrow> times_le (cache_put k r now es) now'"
  by (auto simp: times_le_def cache_put_def)

lemma times_le_subset: "set xs \<subseteq> set ys \<Longrightarrow> times_le ys now \<Longrightarrow> times_le xs now"
  by (auto simp: times_le_def)

lemma times_le_mono: "times_le es now \<Longrightarrow> now \<le> now' \<Longrightarrow> times_le es now'"
  by (auto simp: times_le_def)

end
