(* ===== verification/Expiration.thy ===== *)
theory Expiration
  imports Cache_Store "HOL-Library.While_Combinator"
begin

text \<open>
  The Expiration Policy (spec, section 4.5): after every write to a named cache, the
  entries older than \<open>maxAgeSeconds\<close> are removed, and then, while more than
  \<open>maxEntries\<close> entries remain, the oldest-inserted ones. Both limits are optional.
  The lemmas show the two bounds the spec's invariant promises, that a pass only removes
  entries (it keeps the others in order), that on a cache whose insertion times are in
  order it removes a prefix (the oldest entries), that it keeps the entry just written,
  and that a second pass at the same time changes nothing. The spec's count pruning is
  also written as the loop it describes (\<open>prune_count\<close>). The loop stops on every
  cache, and on a cache whose insertion times are in order it agrees with
  \<open>expire_entries\<close>.
\<close>

record expiration =
  max_entries :: "nat option"
  max_age_seconds :: "nat option"

definition expire_entries :: "expiration \<Rightarrow> time \<Rightarrow> named_cache \<Rightarrow> named_cache" where
  "expire_entries cfg now es =
     (let fresh = (case max_age_seconds cfg of
                     None \<Rightarrow> es
                   | Some a \<Rightarrow> filter (\<lambda>e. now - inserted_at e \<le> a) es)
      in case max_entries cfg of
           None \<Rightarrow> fresh
         | Some n \<Rightarrow> drop (length fresh - n) fresh)"

text \<open>
  The count pruning of the spec as it is written: while more than \<open>n\<close> entries remain,
  remove the oldest-inserted one, the one with the least insertion time and, among equal
  times, the first in insertion order. \<open>prune_count\<close> is that loop, \<open>None\<close> if it
  did not stop; \<open>expire_reference\<close> is the whole pass with it.
\<close>

fun oldest_index :: "named_cache \<Rightarrow> nat" where
  "oldest_index [] = 0"
| "oldest_index [e] = 0"
| "oldest_index (e # e' # es) =
     (let j = oldest_index (e' # es) in if inserted_at ((e' # es) ! j) < inserted_at e then Suc j else 0)"

definition remove_oldest :: "named_cache \<Rightarrow> named_cache" where
  "remove_oldest es = remove_nth (oldest_index es) es"

definition prune_count :: "nat \<Rightarrow> named_cache \<Rightarrow> named_cache option" where
  "prune_count n es = while_option (\<lambda>es. n < length es) remove_oldest es"

definition expire_reference :: "expiration \<Rightarrow> time \<Rightarrow> named_cache \<Rightarrow> named_cache option" where
  "expire_reference cfg now es =
     (let fresh = (case max_age_seconds cfg of
                     None \<Rightarrow> es
                   | Some a \<Rightarrow> filter (\<lambda>e. now - inserted_at e \<le> a) es)
      in case max_entries cfg of
           None \<Rightarrow> Some fresh
         | Some n \<Rightarrow> prune_count n fresh)"

section \<open>The two bounds\<close>

lemma expire_entries_count:
  "max_entries cfg = Some n \<Longrightarrow> length (expire_entries cfg now es) \<le> n"
  by (simp add: expire_entries_def Let_def)

lemma expire_entries_age:
  "max_age_seconds cfg = Some a \<Longrightarrow> e \<in> set (expire_entries cfg now es) \<Longrightarrow> now - inserted_at e \<le> a"
  by (auto simp: expire_entries_def Let_def split: option.splits dest: in_set_dropD)

section \<open>A pass only removes entries\<close>

lemma expire_entries_subseq: "subseq (expire_entries cfg now es) es"
proof -
  have "subseq (case max_age_seconds cfg of None \<Rightarrow> es
                | Some a \<Rightarrow> filter (\<lambda>e. now - inserted_at e \<le> a) es) es"
    by (simp split: option.split)
  then show ?thesis
    by (auto simp: expire_entries_def Let_def split: option.split
        intro: subseq_order.trans [OF suffix_imp_subseq [OF suffix_drop]])
qed

lemma expire_entries_subset: "set (expire_entries cfg now es) \<subseteq> set es"
  using expire_entries_subseq by (auto elim: list_emb_set)

lemma expire_entries_wf: "cache_wf es \<Longrightarrow> cache_wf (expire_entries cfg now es)"
  unfolding cache_wf_def
  by (auto simp: expire_entries_def Let_def distinct_map_filter sorted_filter drop_map [symmetric]
      split: option.split)

lemma expire_entries_times_le: "times_le es now \<Longrightarrow> times_le (expire_entries cfg t es) now"
  by (rule times_le_subset [OF expire_entries_subset])

section \<open>Which entries a pass removes\<close>

text \<open>
  On a cache whose insertion times are in order, age pruning removes a prefix, so the
  whole pass keeps a suffix: it removes the oldest entries only.
\<close>

lemma expire_entries_suffix:
  assumes "sorted (map inserted_at es)"
  shows "suffix (expire_entries cfg now es) es"
proof -
  define fresh where "fresh = (case max_age_seconds cfg of None \<Rightarrow> es
      | Some a \<Rightarrow> filter (\<lambda>e. now - inserted_at e \<le> a) es)"
  have "suffix fresh es"
  proof (cases "max_age_seconds cfg")
    case None
    then show ?thesis by (simp add: fresh_def)
  next
    case (Some a)
    have "filter (\<lambda>e. now - inserted_at e \<le> a) es = dropWhile (\<lambda>e. \<not> now - inserted_at e \<le> a) es"
      using assms by (rule filter_upward_closed_sorted) arith
    with Some show ?thesis by (simp add: fresh_def suffix_dropWhile)
  qed
  then show ?thesis
    by (auto simp: expire_entries_def Let_def fresh_def [symmetric] split: option.split
        intro: suffix_order.trans [OF suffix_drop])
qed

text \<open>The entry written at the time of the pass survives it, unless \<open>maxEntries\<close> is 0.\<close>

lemma expire_entries_snoc_now:
  assumes "max_entries cfg \<noteq> Some 0" and "inserted_at e = now"
  shows "expire_entries cfg now (xs @ [e]) =
           expire_entries (cfg\<lparr>max_entries := map_option (\<lambda>n. n - 1) (max_entries cfg)\<rparr>) now xs @ [e]"
  using assms
  by (auto simp: expire_entries_def Let_def drop_length_minus_append_last split: option.split)

text \<open>When every entry was written at the time of the pass, only the count limit acts.\<close>

lemma expire_entries_all_now:
  assumes "\<forall>e \<in> set es. inserted_at e = now" and "max_entries cfg = Some n"
  shows "expire_entries cfg now es = drop (length es - n) es"
proof -
  have "filter (\<lambda>e. now - inserted_at e \<le> a) es = es" for a
    using assms(1) by (auto intro: filter_True)
  with assms(2) show ?thesis by (simp add: expire_entries_def Let_def split: option.split)
qed

lemma expire_entries_unbounded:
  "max_entries cfg = None \<Longrightarrow> max_age_seconds cfg = None \<Longrightarrow> expire_entries cfg now es = es"
  by (simp add: expire_entries_def)

lemma expire_entries_noop:
  assumes "\<And>a e. max_age_seconds cfg = Some a \<Longrightarrow> e \<in> set es \<Longrightarrow> now - inserted_at e \<le> a"
    and "\<And>n. max_entries cfg = Some n \<Longrightarrow> length es \<le> n"
  shows "expire_entries cfg now es = es"
  using assms by (auto simp: expire_entries_def Let_def split: option.split)

lemma expire_entries_idem:
  "expire_entries cfg now (expire_entries cfg now es) = expire_entries cfg now es"
  by (rule expire_entries_noop) (auto intro: expire_entries_age expire_entries_count)

section \<open>The eviction loop\<close>

text \<open>
  \<open>oldest_index\<close> finds the oldest entry with the spec's tie-break; the loop stops on
  every cache with \<open>min n (length es)\<close> entries; and on a cache whose insertion times
  are in order the loop removes the head each time, so the whole pass is
  \<open>expire_entries\<close>.
\<close>

lemma oldest_index_less: "es \<noteq> [] \<Longrightarrow> oldest_index es < length es"
  by (induction es rule: oldest_index.induct) (auto simp: Let_def)

lemma oldest_index_min: "e \<in> set es \<Longrightarrow> inserted_at (es ! oldest_index es) \<le> inserted_at e"
proof (induction es rule: oldest_index.induct)
  case (3 e e' es)
  then show ?case by (auto simp: Let_def)
qed auto

lemma oldest_index_first:
  "j < oldest_index es \<Longrightarrow> inserted_at (es ! oldest_index es) < inserted_at (es ! j)"
proof (induction es arbitrary: j rule: oldest_index.induct)
  case (3 e e' es)
  then show ?case by (auto simp: Let_def nth_Cons split: if_splits nat.split)
qed auto

lemma oldest_index_mem: "es \<noteq> [] \<Longrightarrow> es ! oldest_index es \<in> set es"
  by (simp add: oldest_index_less)

lemma oldest_index_sorted: "sorted (map inserted_at es) \<Longrightarrow> oldest_index es = 0"
proof (cases es rule: oldest_index.cases)
  case (3 e e' es')
  moreover assume "sorted (map inserted_at es)"
  moreover have "(e' # es') ! oldest_index (e' # es') \<in> set (e' # es')"
    by (rule oldest_index_mem) simp
  ultimately show ?thesis by (auto simp: Let_def not_less)
qed auto

lemma length_remove_oldest: "es \<noteq> [] \<Longrightarrow> length (remove_oldest es) = length es - 1"
  by (simp add: remove_oldest_def length_remove_nth oldest_index_less)

lemma remove_oldest_sorted: "sorted (map inserted_at es) \<Longrightarrow> remove_oldest es = tl es"
  by (simp add: remove_oldest_def oldest_index_sorted remove_nth_def drop_Suc)

lemma prune_count_Some: "\<exists>es'. prune_count n es = Some es' \<and> length es' = min n (length es) \<and> subseq es' es"
proof -
  let ?P = "\<lambda>x. min n (length es) \<le> length x \<and> length x \<le> length es \<and> subseq x es"
  have step: "?P (remove_oldest x) \<and> length (remove_oldest x) < length x" if "?P x" and "n < length x" for x
  proof -
    from that have ne: "x \<noteq> []" by auto
    have "subseq (remove_oldest x) x" by (simp add: remove_oldest_def subseq_remove_nth)
    with that show ?thesis by (auto simp: length_remove_oldest [OF ne] intro: subseq_order.trans)
  qed
  obtain t where t: "while_option (\<lambda>x. n < length x) remove_oldest es = Some t"
    using measure_while_option_Some [where P = ?P and f = length and b = "\<lambda>x. n < length x"
        and c = remove_oldest, OF step, of es] by auto
  have "?P t"
  proof (rule while_option_rule [where P = ?P, OF _ t])
    show "?P (remove_oldest x)" if "?P x" and "n < length x" for x
      using step [OF that] by blast
  qed simp
  moreover have "\<not> n < length t" using while_option_stop [OF t] .
  ultimately show ?thesis using t by (auto simp: prune_count_def)
qed

lemma prune_count_sorted:
  "sorted (map inserted_at es) \<Longrightarrow> prune_count n es = Some (drop (length es - n) es)"
proof (induction es)
  case Nil
  then show ?case by (simp add: prune_count_def while_option_unfold)
next
  case (Cons e es)
  show ?case
  proof (cases "n < length (e # es)")
    case True
    from Cons.prems have "remove_oldest (e # es) = es" by (simp add: remove_oldest_sorted)
    moreover from Cons have "prune_count n es = Some (drop (length es - n) es)" by simp
    ultimately show ?thesis using True
      by (simp add: prune_count_def while_option_unfold [of _ _ "e # es"] Suc_diff_le)
  next
    case False
    then show ?thesis by (simp add: prune_count_def while_option_unfold [of _ _ "e # es"])
  qed
qed

lemma expire_reference_sorted:
  "sorted (map inserted_at es) \<Longrightarrow> expire_reference cfg now es = Some (expire_entries cfg now es)"
  by (auto simp: expire_reference_def expire_entries_def Let_def sorted_filter prune_count_sorted
      split: option.split)

end
