(* ===== verification/Strategies.thy ===== *)
theory Strategies
  imports Expiration
begin

text \<open>
  The Response Filter and the Strategy Executor (spec, sections 4.2 to 4.4 and 9). A
  strategy is built as in the source, \<open>new CacheFirst({cacheName, plugins})\<close> or
  \<open>new StaleWhileRevalidate({cacheName, plugins})\<close>; a plugin is a cacheable-response
  filter (\<open>beforeStore\<close>) or an expiration policy (\<open>afterStore\<close>). A handler
  takes the request, the clock, the outcome of the network fetch it would issue and
  whether the storage write succeeds, and returns the reply to the caller, the new
  storage, the number of network fetches it issued, and (stale-while-revalidate on a
  hit) the background revalidation it spawned. The revalidation runs later, as a
  separate step of the worker (theory \<open>Worker\<close>).
\<close>

datatype plugin =
    Cacheable_response "nat list"    \<comment> \<open>\<open>cacheableResponse.Plugin({statuses})\<close>\<close>
  | Expiration_plugin expiration     \<comment> \<open>\<open>expiration.Plugin({maxEntries, maxAgeSeconds})\<close>\<close>

record strategy_options =
  cacheName :: cache_name
  plugins :: "plugin list"

datatype strategy =
    StaleWhileRevalidate strategy_options
  | CacheFirst strategy_options

record revalidation =
  rv_options :: strategy_options
  rv_request :: request

record handled =
  reply :: "sw_error + response"
  new_storage :: storage
  fetches :: nat
  spawned :: "revalidation option"

section \<open>Plugins\<close>

text \<open>
  Without a filter plugin a response is stored when its status is 200; with filter
  plugins, when every one of them lists its status.
\<close>

definition cacheable :: "plugin list \<Rightarrow> response \<Rightarrow> bool" where
  "cacheable ps r =
     (case [ss. Cacheable_response ss \<leftarrow> ps] of
        [] \<Rightarrow> status r = 200
      | fs \<Rightarrow> list_all (\<lambda>ss. status r \<in> set ss) fs)"

definition after_store :: "plugin list \<Rightarrow> time \<Rightarrow> named_cache \<Rightarrow> named_cache" where
  "after_store ps now es =
     fold (\<lambda>p es. case p of Expiration_plugin cfg \<Rightarrow> expire_entries cfg now es | _ \<Rightarrow> es) ps es"

definition store_response ::
  "strategy_options \<Rightarrow> time \<Rightarrow> bool \<Rightarrow> request_key \<Rightarrow> response \<Rightarrow> storage \<Rightarrow> storage" where
  "store_response opts now write_ok k r st =
     (if cacheable (plugins opts) r \<and> write_ok
      then st(cacheName opts \<mapsto>
                after_store (plugins opts) now (cache_put k r now (open_cache st (cacheName opts))))
      else st)"

section \<open>Handlers\<close>

definition fetch_and_cache ::
  "strategy_options \<Rightarrow> time \<Rightarrow> request \<Rightarrow> fetch_result \<Rightarrow> bool \<Rightarrow> storage \<Rightarrow> handled" where
  "fetch_and_cache opts now req net write_ok st =
     (case net of
        Network_error \<Rightarrow>
          \<lparr>reply = Inl Fetch_failed, new_storage = st, fetches = 1, spawned = None\<rparr>
      | Fetched r \<Rightarrow>
          \<lparr>reply = Inr r, new_storage = store_response opts now write_ok (request_key req) r st,
           fetches = 1, spawned = None\<rparr>)"

definition cache_first ::
  "strategy_options \<Rightarrow> time \<Rightarrow> request \<Rightarrow> fetch_result \<Rightarrow> bool \<Rightarrow> storage \<Rightarrow> handled" where
  "cache_first opts now req net write_ok st =
     (case storage_match st (cacheName opts) (request_key req) of
        Some r \<Rightarrow> \<lparr>reply = Inr r, new_storage = st, fetches = 0, spawned = None\<rparr>
      | None \<Rightarrow> fetch_and_cache opts now req net write_ok st)"

definition stale_while_revalidate ::
  "strategy_options \<Rightarrow> time \<Rightarrow> request \<Rightarrow> fetch_result \<Rightarrow> bool \<Rightarrow> storage \<Rightarrow> handled" where
  "stale_while_revalidate opts now req net write_ok st =
     (case storage_match st (cacheName opts) (request_key req) of
        Some r \<Rightarrow> \<lparr>reply = Inr r, new_storage = st, fetches = 1,
                   spawned = Some \<lparr>rv_options = opts, rv_request = req\<rparr>\<rparr>
      | None \<Rightarrow> fetch_and_cache opts now req net write_ok st)"

definition handle_strategy ::
  "strategy \<Rightarrow> time \<Rightarrow> request \<Rightarrow> fetch_result \<Rightarrow> bool \<Rightarrow> storage \<Rightarrow> handled" where
  "handle_strategy s =
     (case s of CacheFirst opts \<Rightarrow> cache_first opts
              | StaleWhileRevalidate opts \<Rightarrow> stale_while_revalidate opts)"

text \<open>
  The background revalidation completes: on a network failure it is swallowed and the
  storage is unchanged; otherwise the response goes through the filter and is stored.
\<close>

definition revalidate :: "revalidation \<Rightarrow> time \<Rightarrow> fetch_result \<Rightarrow> bool \<Rightarrow> storage \<Rightarrow> storage" where
  "revalidate rv now net write_ok st =
     (case net of
        Network_error \<Rightarrow> st
      | Fetched r \<Rightarrow> store_response (rv_options rv) now write_ok (request_key (rv_request rv)) r st)"

section \<open>Side conditions of the lemmas\<close>

text \<open>
  \<open>keeps_newest\<close>: no expiration plugin has \<open>maxEntries = 0\<close>, so the entry just
  written survives the pass. \<open>storage_wf\<close>: every named cache has distinct keys,
  insertion times in order, and no insertion time after the clock.
\<close>

definition keeps_newest :: "plugin list \<Rightarrow> bool" where
  "keeps_newest ps \<longleftrightarrow>
     list_all (\<lambda>p. case p of Expiration_plugin cfg \<Rightarrow> max_entries cfg \<noteq> Some 0 | _ \<Rightarrow> True) ps"

definition storage_wf :: "time \<Rightarrow> storage \<Rightarrow> bool" where
  "storage_wf now st \<longleftrightarrow> (\<forall>n es. st n = Some es \<longrightarrow> cache_wf es \<and> times_le es now)"

section \<open>The afterStore hooks\<close>

lemma after_store_Nil [simp]: "after_store [] now es = es"
  by (simp add: after_store_def)

lemma after_store_Cons [simp]:
  "after_store (p # ps) now es =
     after_store ps now (case p of Expiration_plugin cfg \<Rightarrow> expire_entries cfg now es | _ \<Rightarrow> es)"
  by (simp add: after_store_def)

lemma after_store_subseq: "subseq (after_store ps now es) es"
proof (induction ps arbitrary: es)
  case Nil
  then show ?case by simp
next
  case (Cons p ps)
  then show ?case
    by (cases p) (auto intro: subseq_order.trans [OF _ expire_entries_subseq])
qed

lemma after_store_subset: "set (after_store ps now es) \<subseteq> set es"
  using after_store_subseq by (auto elim: list_emb_set)

lemma after_store_wf: "cache_wf es \<Longrightarrow> cache_wf (after_store ps now es)"
  by (induction ps arbitrary: es) (auto simp: expire_entries_wf split: plugin.split)

lemma after_store_count:
  assumes "Expiration_plugin cfg \<in> set ps" and "max_entries cfg = Some m"
  shows "length (after_store ps now es) \<le> m"
  using assms(1)
proof (induction ps arbitrary: es)
  case Nil
  then show ?case by simp
next
  case (Cons p ps)
  show ?case
  proof (cases "p = Expiration_plugin cfg")
    case True
    have "length (after_store ps now (expire_entries cfg now es)) \<le> length (expire_entries cfg now es)"
      using after_store_subseq by (rule list_emb_length)
    also have "\<dots> \<le> m" using assms(2) by (rule expire_entries_count)
    finally show ?thesis using True by simp
  next
    case False
    with Cons show ?thesis by (simp split: plugin.split)
  qed
qed

lemma after_store_age:
  assumes "Expiration_plugin cfg \<in> set ps" and "max_age_seconds cfg = Some a"
    and "e \<in> set (after_store ps now es)"
  shows "now - inserted_at e \<le> a"
  using assms(1,3)
proof (induction ps arbitrary: es)
  case Nil
  then show ?case by simp
next
  case (Cons p ps)
  show ?case
  proof (cases "p = Expiration_plugin cfg")
    case True
    with Cons.prems have "e \<in> set (expire_entries cfg now es)"
      using after_store_subset by auto
    with assms(2) show ?thesis by (rule expire_entries_age)
  next
    case False
    with Cons show ?thesis by (auto split: plugin.splits)
  qed
qed

lemma after_store_snoc_now:
  assumes "keeps_newest ps" and "inserted_at e = now"
  shows "\<exists>ys. after_store ps now (xs @ [e]) = ys @ [e] \<and> set ys \<subseteq> set xs"
  using assms(1)
proof (induction ps arbitrary: xs)
  case Nil
  then show ?case by auto
next
  case (Cons p ps)
  show ?case
  proof (cases p)
    case (Cacheable_response ss)
    with Cons show ?thesis by (simp add: keeps_newest_def)
  next
    case (Expiration_plugin cfg)
    let ?cfg' = "cfg\<lparr>max_entries := map_option (\<lambda>n. n - 1) (max_entries cfg)\<rparr>"
    from Cons.prems Expiration_plugin have ne: "max_entries cfg \<noteq> Some 0" and kn: "keeps_newest ps"
      by (simp_all add: keeps_newest_def)
    have "expire_entries cfg now (xs @ [e]) = expire_entries ?cfg' now xs @ [e]"
      using ne assms(2) by (rule expire_entries_snoc_now)
    moreover obtain ys where "after_store ps now (expire_entries ?cfg' now xs @ [e]) = ys @ [e]"
        and "set ys \<subseteq> set (expire_entries ?cfg' now xs)"
      using Cons.IH [OF kn] by blast
    ultimately show ?thesis
      using Expiration_plugin expire_entries_subset by fastforce
  qed
qed

section \<open>Storing a response\<close>

lemma store_response_rejected [handler_simps]:
  "\<not> cacheable (plugins opts) r \<Longrightarrow> store_response opts now write_ok k r st = st"
  by (simp add: store_response_def)

lemma store_response_write_failed [handler_simps]:
  "store_response opts now False k r st = st"
  by (simp add: store_response_def)

lemma store_response_other [handler_simps]:
  "n \<noteq> cacheName opts \<Longrightarrow> store_response opts now write_ok k r st n = st n"
  by (simp add: store_response_def)

lemma store_response_entries:
  "store_response opts now write_ok k r st n = Some es \<Longrightarrow> e \<in> set es \<Longrightarrow>
     (st n = Some es \<and> \<not> (cacheable (plugins opts) r \<and> write_ok \<and> n = cacheName opts))
     \<or> (n = cacheName opts \<and> cacheable (plugins opts) r \<and> write_ok \<and>
        (e \<in> set (open_cache st n) \<or> e = \<lparr>entry_key = k, entry_response = r, inserted_at = now\<rparr>))"
  using after_store_subset [of "plugins opts" now "cache_put k r now (open_cache st (cacheName opts))"]
  by (auto simp: store_response_def set_cache_put split: if_splits)

lemma store_response_match [store_simps]:
  assumes "cacheable (plugins opts) r" and "keeps_newest (plugins opts)"
  shows "storage_match (store_response opts now True k r st) (cacheName opts) k = Some r"
proof -
  let ?e = "\<lparr>entry_key = k, entry_response = r, inserted_at = now\<rparr>"
  let ?xs = "filter (\<lambda>e. entry_key e \<noteq> k) (open_cache st (cacheName opts))"
  obtain ys where ys: "after_store (plugins opts) now (?xs @ [?e]) = ys @ [?e]" and "set ys \<subseteq> set ?xs"
    using after_store_snoc_now [OF assms(2), of ?e now ?xs] by auto
  then have "cache_match ys k = None" by (auto simp: cache_match_None_iff)
  with ys assms(1) show ?thesis
    by (simp add: store_response_def storage_match_def cache_put_def cache_match_append cache_match_single)
qed

section \<open>The handlers on each branch\<close>

lemma fetch_and_cache_error [handler_simps]:
  "fetch_and_cache opts now req Network_error write_ok st =
     \<lparr>reply = Inl Fetch_failed, new_storage = st, fetches = 1, spawned = None\<rparr>"
  by (simp add: fetch_and_cache_def)

lemma fetch_and_cache_fetched [handler_simps]:
  "fetch_and_cache opts now req (Fetched r) write_ok st =
     \<lparr>reply = Inr r, new_storage = store_response opts now write_ok (request_key req) r st,
      fetches = 1, spawned = None\<rparr>"
  by (simp add: fetch_and_cache_def)

lemma cache_first_hit [handler_simps]:
  "storage_match st (cacheName opts) (request_key req) = Some r \<Longrightarrow>
     cache_first opts now req net write_ok st =
       \<lparr>reply = Inr r, new_storage = st, fetches = 0, spawned = None\<rparr>"
  by (simp add: cache_first_def)

lemma cache_first_miss [handler_simps]:
  "storage_match st (cacheName opts) (request_key req) = None \<Longrightarrow>
     cache_first opts now req net write_ok st = fetch_and_cache opts now req net write_ok st"
  by (simp add: cache_first_def)

lemma stale_while_revalidate_hit [handler_simps]:
  "storage_match st (cacheName opts) (request_key req) = Some r \<Longrightarrow>
     stale_while_revalidate opts now req net write_ok st =
       \<lparr>reply = Inr r, new_storage = st, fetches = 1,
        spawned = Some \<lparr>rv_options = opts, rv_request = req\<rparr>\<rparr>"
  by (simp add: stale_while_revalidate_def)

lemma stale_while_revalidate_miss [handler_simps]:
  "storage_match st (cacheName opts) (request_key req) = None \<Longrightarrow>
     stale_while_revalidate opts now req net write_ok st = fetch_and_cache opts now req net write_ok st"
  by (simp add: stale_while_revalidate_def)

lemma handle_strategy_simps [simp, handler_simps]:
  "handle_strategy (CacheFirst opts) = cache_first opts"
  "handle_strategy (StaleWhileRevalidate opts) = stale_while_revalidate opts"
  by (simp_all add: handle_strategy_def)

section \<open>The storage invariant is kept by every handler\<close>

lemma storage_wf_open_cache:
  "storage_wf now st \<Longrightarrow> cache_wf (open_cache st n) \<and> times_le (open_cache st n) now"
  by (auto simp: storage_wf_def open_cache_def cache_wf_def times_le_def split: option.split)

lemma storage_wf_mono: "storage_wf now st \<Longrightarrow> now \<le> now' \<Longrightarrow> storage_wf now' st"
  by (auto simp: storage_wf_def intro: times_le_mono)

lemma store_response_wf:
  assumes "storage_wf now st"
  shows "storage_wf now (store_response opts now write_ok k r st)"
proof -
  let ?es = "open_cache st (cacheName opts)"
  from assms have "cache_wf (cache_put k r now ?es)" and "times_le (cache_put k r now ?es) now"
    by (auto dest: storage_wf_open_cache intro: cache_put_wf cache_put_times_le)
  then have "cache_wf (after_store (plugins opts) now (cache_put k r now ?es))"
    and "times_le (after_store (plugins opts) now (cache_put k r now ?es)) now"
    by (auto intro: after_store_wf times_le_subset [OF after_store_subset])
  with assms show ?thesis by (auto simp: store_response_def storage_wf_def)
qed

lemma handle_strategy_wf:
  "storage_wf now st \<Longrightarrow> storage_wf now (new_storage (handle_strategy s now req net write_ok st))"
  by (cases s; cases net)
    (auto simp: cache_first_def stale_while_revalidate_def fetch_and_cache_def store_response_wf
      split: option.split)

lemma revalidate_wf:
  "storage_wf now st \<Longrightarrow> storage_wf now (revalidate rv now net write_ok st)"
  by (cases net) (simp_all add: revalidate_def store_response_wf)

end
