(* ===== verification/Routing.thy ===== *)
theory Routing
  imports Regex Strategies
begin

text \<open>
  The Route Matcher (spec, section 4.1): routes are registered in order, each a pattern
  on the request URL and a strategy; a request is handled by the first route whose
  pattern matches, and a request no route matches passes through to the network
  without touching the caches. \<open>handle_fetch\<close> is the whole interception of one
  request: match, then run the route's strategy or pass through.
\<close>

record route =
  route_pattern :: rx
  route_handler :: strategy

definition register_route :: "rx \<Rightarrow> strategy \<Rightarrow> route list \<Rightarrow> route list" where
  "register_route capture handler rts = rts @ [\<lparr>route_pattern = capture, route_handler = handler\<rparr>]"

definition match_route :: "route list \<Rightarrow> request \<Rightarrow> route option" where
  "match_route rts req = find (\<lambda>rt. regex_test (route_pattern rt) (req_url req)) rts"

definition pass_through :: "fetch_result \<Rightarrow> storage \<Rightarrow> handled" where
  "pass_through net st =
     \<lparr>reply = (case net of Fetched r \<Rightarrow> Inr r | Network_error \<Rightarrow> Inl Fetch_failed),
      new_storage = st, fetches = 1, spawned = None\<rparr>"

definition handle_fetch ::
  "route list \<Rightarrow> time \<Rightarrow> request \<Rightarrow> fetch_result \<Rightarrow> bool \<Rightarrow> storage \<Rightarrow> handled" where
  "handle_fetch rts now req net write_ok st =
     (case match_route rts req of
        None \<Rightarrow> pass_through net st
      | Some rt \<Rightarrow> handle_strategy (route_handler rt) now req net write_ok st)"

fun strategy_opts :: "strategy \<Rightarrow> strategy_options" where
  "strategy_opts (CacheFirst opts) = opts"
| "strategy_opts (StaleWhileRevalidate opts) = opts"

section \<open>First match wins\<close>

lemma match_route_Nil [simp]: "match_route [] req = None"
  by (simp add: match_route_def)

lemma match_route_Cons:
  "match_route (rt # rts) req =
     (if regex_test (route_pattern rt) (req_url req) then Some rt else match_route rts req)"
  by (simp add: match_route_def)

lemma match_route_Some_iff:
  "match_route rts req = Some rt \<longleftrightarrow>
     (\<exists>i < length rts. rts ! i = rt \<and> regex_test (route_pattern rt) (req_url req) \<and>
        (\<forall>j < i. \<not> regex_test (route_pattern (rts ! j)) (req_url req)))"
  by (auto simp: match_route_def find_Some_iff)

lemma match_route_None_iff:
  "match_route rts req = None \<longleftrightarrow> (\<forall>rt \<in> set rts. \<not> regex_test (route_pattern rt) (req_url req))"
  by (auto simp: match_route_def find_None_iff)

lemma match_route_in: "match_route rts req = Some rt \<Longrightarrow> rt \<in> set rts"
  by (auto simp: match_route_Some_iff)

lemma match_route_append:
  "match_route (xs @ ys) req = (case match_route xs req of None \<Rightarrow> match_route ys req | Some rt \<Rightarrow> Some rt)"
  by (induction xs) (simp_all add: match_route_Cons)

lemma handle_fetch_unmatched [handler_simps]:
  "match_route rts req = None \<Longrightarrow> handle_fetch rts now req net write_ok st = pass_through net st"
  by (simp add: handle_fetch_def)

lemma handle_fetch_matched [handler_simps]:
  "match_route rts req = Some rt \<Longrightarrow>
     handle_fetch rts now req net write_ok st = handle_strategy (route_handler rt) now req net write_ok st"
  by (simp add: handle_fetch_def)

lemma handle_fetch_wf:
  "storage_wf now st \<Longrightarrow> storage_wf now (new_storage (handle_fetch rts now req net write_ok st))"
  by (auto simp: handle_fetch_def pass_through_def handle_strategy_wf split: option.split)

end
