(* ===== verification/Service_Worker.thy ===== *)
theory Service_Worker
  imports Routing
begin

text \<open>
  The program itself, \<open>src/static/service-worker.js\<close>: it loads Workbox 4.2.0 and,
  when the library is present, registers four routes in this order:
  \<^enum> \<open>/\.css$/\<close>, stale-while-revalidate into \<open>css-cache\<close>, no plugins;
  \<^enum> \<open>/\.(?:png|jpg|jpeg|svg|gif)$/\<close>, cache-first into \<open>image-cache\<close>, expiration
    after 20 entries or one week;
  \<^enum> \<open>/^https:\/\/fonts\.googleapis\.com/\<close>, stale-while-revalidate into
    \<open>google-fonts-stylesheets\<close>, no plugins;
  \<^enum> \<open>/^https:\/\/fonts\.gstatic\.com/\<close>, cache-first into \<open>google-fonts-webfonts\<close>,
    caching statuses 0 and 200, expiration after one year.
  Each constant below is one expression of the source; the console messages keep their
  emoji as the UTF-8 bytes the script holds.
\<close>

definition workbox_cdn_url :: url where
  "workbox_cdn_url = ''https://storage.googleapis.com/workbox-cdn/releases/4.2.0/workbox-sw.js''"

definition loaded_message :: string where
  "loaded_message = ''Yay! Workbox is loaded '' @ [CHR 0xF0, CHR 0x9F, CHR 0x8E, CHR 0x89]"

section \<open>CSS files\<close>

definition css_pattern :: rx where
  "css_pattern = Cat [Lit ''.css'', Line_end]"

definition css_cache_name :: cache_name where
  "css_cache_name = ''css-cache''"

definition css_options :: strategy_options where
  "css_options = \<lparr>cacheName = css_cache_name, plugins = []\<rparr>"

definition css_strategy :: strategy where
  "css_strategy = StaleWhileRevalidate css_options"

definition register_css_route :: "route list \<Rightarrow> route list" where
  "register_css_route rts = register_route css_pattern css_strategy rts"

section \<open>Images\<close>

definition image_pattern :: rx where
  "image_pattern = Cat [Lit ''.'', Alt [Lit ''png'', Lit ''jpg'', Lit ''jpeg'', Lit ''svg'', Lit ''gif''], Line_end]"

definition image_cache_name :: cache_name where
  "image_cache_name = ''image-cache''"

definition image_max_entries :: nat where
  "image_max_entries = 20"

definition image_max_age_seconds :: nat where
  "image_max_age_seconds = 7 * 24 * 60 * 60"

definition image_expiration :: expiration where
  "image_expiration = \<lparr>max_entries = Some image_max_entries, max_age_seconds = Some image_max_age_seconds\<rparr>"

definition image_expiration_plugin :: plugin where
  "image_expiration_plugin = Expiration_plugin image_expiration"

definition image_plugins :: "plugin list" where
  "image_plugins = [image_expiration_plugin]"

definition image_options :: strategy_options where
  "image_options = \<lparr>cacheName = image_cache_name, plugins = image_plugins\<rparr>"

definition image_strategy :: strategy where
  "image_strategy = CacheFirst image_options"

definition register_image_route :: "route list \<Rightarrow> route list" where
  "register_image_route rts = register_route image_pattern image_strategy rts"

section \<open>Google Fonts stylesheets\<close>

definition fonts_stylesheets_pattern :: rx where
  "fonts_stylesheets_pattern = Cat [Line_start, Lit ''https://fonts.googleapis.com'']"

definition fonts_stylesheets_cache_name :: cache_name where
  "fonts_stylesheets_cache_name = ''google-fonts-stylesheets''"

definition fonts_stylesheets_options :: strategy_options where
  "fonts_stylesheets_options = \<lparr>cacheName = fonts_stylesheets_cache_name, plugins = []\<rparr>"

definition fonts_stylesheets_strategy :: strategy where
  "fonts_stylesheets_strategy = StaleWhileRevalidate fonts_stylesheets_options"

definition register_fonts_stylesheets_route :: "route list \<Rightarrow> route list" where
  "register_fonts_stylesheets_route rts =
     register_route fonts_stylesheets_pattern fonts_stylesheets_strategy rts"

section \<open>Google Fonts webfont files\<close>

definition webfonts_pattern :: rx where
  "webfonts_pattern = Cat [Line_start, Lit ''https://fonts.gstatic.com'']"

definition webfonts_cache_name :: cache_name where
  "webfonts_cache_name = ''google-fonts-webfonts''"

definition webfonts_statuses :: "nat list" where
  "webfonts_statuses = [0, 200]"

definition webfonts_max_age_seconds :: nat where
  "webfonts_max_age_seconds = 60 * 60 * 24 * 365"

definition webfonts_expiration :: expiration where
  "webfonts_expiration = \<lparr>max_entries = None, max_age_seconds = Some webfonts_max_age_seconds\<rparr>"

definition webfonts_cacheable :: plugin where
  "webfonts_cacheable = Cacheable_response webfonts_statuses"

definition webfonts_expiration_plugin :: plugin where
  "webfonts_expiration_plugin = Expiration_plugin webfonts_expiration"

definition webfonts_plugins :: "plugin list" where
  "webfonts_plugins = [webfonts_cacheable, webfonts_expiration_plugin]"

definition webfonts_options :: strategy_options where
  "webfonts_options = \<lparr>cacheName = webfonts_cache_name, plugins = webfonts_plugins\<rparr>"

definition webfonts_strategy :: strategy where
  "webfonts_strategy = CacheFirst webfonts_options"

definition register_webfonts_route :: "route list \<Rightarrow> route list" where
  "register_webfonts_route rts = register_route webfonts_pattern webfonts_strategy rts"

section \<open>The script\<close>

definition register_routes :: "route list \<Rightarrow> route list" where
  "register_routes rts =
     register_webfonts_route (register_fonts_stylesheets_route (register_image_route (register_css_route rts)))"

definition failed_message :: string where
  "failed_message = ''Boo! Workbox didn't load '' @ [CHR 0xF0, CHR 0x9F, CHR 0x98, CHR 0xAC]"

text \<open>
  The script runs once, when the worker starts. \<open>import_scripts u\<close> is the state of
  the global \<open>workbox\<close> after \<open>importScripts(u)\<close>. \<open>None\<close> means the import
  threw (network error). \<open>Some Undeclared\<close> means the import succeeded but declared
  no such global. \<open>Some (Declared b)\<close> means the global exists, with truthiness
  \<open>b\<close>. Reading an undeclared global in \<open>if (workbox)\<close> throws a
  \<open>ReferenceError\<close>. An exception aborts the script, which is \<open>Inl\<close> of the
  result. Otherwise the result is the route table the router then holds and the lines
  written to the console.
\<close>

datatype js_global = Undeclared | Declared bool

datatype script_error = Import_error | Reference_error

definition service_worker ::
  "(url \<Rightarrow> js_global option) \<Rightarrow> script_error + (route list \<times> string list)" where
  "service_worker import_scripts =
     (case import_scripts workbox_cdn_url of
        None \<Rightarrow> Inl Import_error
      | Some Undeclared \<Rightarrow> Inl Reference_error
      | Some (Declared workbox) \<Rightarrow>
          (if workbox then Inr (register_routes [], [loaded_message]) else Inr ([], [failed_message])))"

abbreviation workbox_routes :: "route list" where
  "workbox_routes \<equiv> register_routes []"

lemmas css_strategy_defs = css_strategy_def css_options_def

lemmas image_strategy_defs =
  image_strategy_def image_options_def image_plugins_def image_expiration_plugin_def

lemmas fonts_stylesheets_strategy_defs = fonts_stylesheets_strategy_def fonts_stylesheets_options_def

lemmas webfonts_strategy_defs =
  webfonts_strategy_def webfonts_options_def webfonts_plugins_def webfonts_cacheable_def
  webfonts_expiration_plugin_def

lemmas workbox_config_defs =
  css_cache_name_def css_options_def css_strategy_def image_expiration_plugin_def image_plugins_def
  image_options_def fonts_stylesheets_options_def webfonts_cacheable_def webfonts_expiration_plugin_def
  webfonts_plugins_def webfonts_options_def css_strategy_def image_cache_name_def image_max_entries_def image_max_age_seconds_def
  image_expiration_def image_strategy_def fonts_stylesheets_cache_name_def fonts_stylesheets_strategy_def
  webfonts_cache_name_def webfonts_statuses_def webfonts_max_age_seconds_def webfonts_expiration_def
  webfonts_strategy_def

section \<open>The route table\<close>

lemma workbox_routes_eq:
  "workbox_routes =
     [\<lparr>route_pattern = css_pattern, route_handler = css_strategy\<rparr>,
      \<lparr>route_pattern = image_pattern, route_handler = image_strategy\<rparr>,
      \<lparr>route_pattern = fonts_stylesheets_pattern, route_handler = fonts_stylesheets_strategy\<rparr>,
      \<lparr>route_pattern = webfonts_pattern, route_handler = webfonts_strategy\<rparr>]"
  by (simp add: register_routes_def register_css_route_def register_image_route_def
      register_fonts_stylesheets_route_def register_webfonts_route_def register_route_def)

lemma css_pattern_test [regex_simps]: "regex_test css_pattern u \<longleftrightarrow> suffix ''.css'' u"
  unfolding css_pattern_def by (rule regex_test_lit_end)

lemma image_pattern_test [regex_simps]:
  "regex_test image_pattern u \<longleftrightarrow>
     suffix ''.png'' u \<or> suffix ''.jpg'' u \<or> suffix ''.jpeg'' u \<or> suffix ''.svg'' u \<or> suffix ''.gif'' u"
proof -
  have eq: "image_pattern = Cat [Lit ''.'', Alt (map Lit [''png'', ''jpg'', ''jpeg'', ''svg'', ''gif'']), Line_end]"
    by (simp add: image_pattern_def)
  show ?thesis unfolding eq regex_test_lit_alts_end by simp
qed

lemma fonts_stylesheets_pattern_test [regex_simps]:
  "regex_test fonts_stylesheets_pattern u \<longleftrightarrow> prefix ''https://fonts.googleapis.com'' u"
  unfolding fonts_stylesheets_pattern_def by (rule regex_test_anchored_lit)

lemma webfonts_pattern_test [regex_simps]:
  "regex_test webfonts_pattern u \<longleftrightarrow> prefix ''https://fonts.gstatic.com'' u"
  unfolding webfonts_pattern_def by (rule regex_test_anchored_lit)

lemma css_suffix_not_image: "suffix ''.css'' u \<Longrightarrow> \<not> regex_test image_pattern u"
proof -
  have "\<not> (suffix ''.css'' u \<and> suffix x u)" if "x \<in> {''.png'', ''.jpg'', ''.jpeg'', ''.svg'', ''.gif''}" for x
  proof (rule suffixes_disjoint)
    show "\<not> suffix ''.css'' x" and "\<not> suffix x ''.css''"
      using that by (auto simp: suffix_to_prefix)
  qed
  then show "suffix ''.css'' u \<Longrightarrow> \<not> regex_test image_pattern u" by (auto simp: image_pattern_test)
qed

lemma route_css:
  "regex_test css_pattern (req_url req) \<Longrightarrow>
     match_route workbox_routes req = Some \<lparr>route_pattern = css_pattern, route_handler = css_strategy\<rparr>"
  by (simp add: workbox_routes_eq match_route_Cons)

lemma route_image:
  "regex_test image_pattern (req_url req) \<Longrightarrow>
     match_route workbox_routes req = Some \<lparr>route_pattern = image_pattern, route_handler = image_strategy\<rparr>"
  using css_suffix_not_image [of "req_url req"]
  by (auto simp: workbox_routes_eq match_route_Cons css_pattern_test)

lemma route_fonts_stylesheets:
  "regex_test fonts_stylesheets_pattern (req_url req) \<Longrightarrow> \<not> regex_test css_pattern (req_url req) \<Longrightarrow>
   \<not> regex_test image_pattern (req_url req) \<Longrightarrow>
     match_route workbox_routes req =
       Some \<lparr>route_pattern = fonts_stylesheets_pattern, route_handler = fonts_stylesheets_strategy\<rparr>"
  by (simp add: workbox_routes_eq match_route_Cons)

section \<open>Which route serves a request\<close>

text \<open>
  C1: the configured router sends a request to the CSS route when its URL ends in
  \<open>.css\<close>; otherwise to the image route when it ends in \<open>.png\<close>, \<open>.jpg\<close>,
  \<open>.jpeg\<close>, \<open>.svg\<close> or \<open>.gif\<close>; otherwise to the Google Fonts stylesheet route
  when it starts with \<open>https://fonts.googleapis.com\<close>; otherwise to the webfont route
  when it starts with \<open>https://fonts.gstatic.com\<close>; and no route handles any other URL.
\<close>

theorem route_table_dispatch:
  "match_route workbox_routes req =
     (if suffix ''.css'' (req_url req)
        then Some \<lparr>route_pattern = css_pattern, route_handler = css_strategy\<rparr>
      else if suffix ''.png'' (req_url req) \<or> suffix ''.jpg'' (req_url req) \<or> suffix ''.jpeg'' (req_url req)
              \<or> suffix ''.svg'' (req_url req) \<or> suffix ''.gif'' (req_url req)
        then Some \<lparr>route_pattern = image_pattern, route_handler = image_strategy\<rparr>
      else if prefix ''https://fonts.googleapis.com'' (req_url req)
        then Some \<lparr>route_pattern = fonts_stylesheets_pattern, route_handler = fonts_stylesheets_strategy\<rparr>
      else if prefix ''https://fonts.gstatic.com'' (req_url req)
        then Some \<lparr>route_pattern = webfonts_pattern, route_handler = webfonts_strategy\<rparr>
      else None)"
  by (simp add: register_routes_def register_css_route_def register_image_route_def
      register_fonts_stylesheets_route_def register_webfonts_route_def register_route_def
      match_route_Cons regex_simps)

text \<open>
  C13: no URL matches both Google Fonts routes: the stylesheet pattern and the webfont
  pattern are anchored at the start on two different hosts, so the order in which the
  two routes are registered does not matter.
\<close>

theorem fonts_routes_disjoint:
  "\<not> (regex_test fonts_stylesheets_pattern u \<and> regex_test webfonts_pattern u)"
  unfolding fonts_stylesheets_pattern_test webfonts_pattern_test
  by (rule prefixes_disjoint) simp_all

text \<open>
  C14: the CSS pattern is not anchored to a host, so a Google Fonts stylesheet URL
  whose path ends in \<open>.css\<close> matches both the CSS route and the stylesheet route, and,
  the CSS route being registered first, it is served from \<open>css-cache\<close>.
\<close>

theorem css_route_shadows_fonts_stylesheets:
  assumes "prefix ''https://fonts.googleapis.com'' (req_url req)" and "suffix ''.css'' (req_url req)"
  shows "regex_test fonts_stylesheets_pattern (req_url req)
         \<and> map_option route_handler (match_route workbox_routes req) = Some css_strategy"
  using assms by (simp add: fonts_stylesheets_pattern_test route_table_dispatch)

theorem css_route_shadows_fonts_stylesheets_witness:
  "regex_test fonts_stylesheets_pattern ''https://fonts.googleapis.com/css/roboto.css''
   \<and> map_option route_handler
        (match_route workbox_routes
          \<lparr>req_url = ''https://fonts.googleapis.com/css/roboto.css'', req_method = ''GET'', req_headers = []\<rparr>)
      = Some css_strategy"
  using css_route_shadows_fonts_stylesheets
    [of "\<lparr>req_url = ''https://fonts.googleapis.com/css/roboto.css'', req_method = ''GET'', req_headers = []\<rparr>"]
  by (simp add: suffix_to_prefix)

text \<open>
  C23: no URL matches both the CSS pattern and the image pattern, whatever the path.
\<close>

theorem css_image_routes_disjoint:
  "\<not> (regex_test css_pattern u \<and> regex_test image_pattern u)"
  using css_suffix_not_image by (auto simp: css_pattern_test)

lemma service_worker_loaded:
  "import_scripts workbox_cdn_url = Some (Declared True) \<Longrightarrow>
     service_worker import_scripts = Inr (workbox_routes, [loaded_message])"
  by (simp add: service_worker_def)

section \<open>Without the library\<close>

text \<open>
  C16: when \<open>importScripts\<close> returns but the \<open>workbox\<close> global is falsy, the script
  only logs its failure and registers no route. Every request then passes through to the
  network, and no cache is read or written.
\<close>

theorem workbox_falsy_pass_through:
  assumes "import_scripts workbox_cdn_url = Some (Declared False)"
  shows "service_worker import_scripts = Inr ([], [failed_message])
       \<and> handle_fetch [] now req net write_ok st = pass_through net st"
  using assms by (simp add: service_worker_def handle_fetch_def)

theorem workbox_falsy_pass_through_witness:
  "service_worker (\<lambda>_. Some (Declared False)) = Inr ([], [failed_message])
   \<and> handle_fetch [] 0 \<lparr>req_url = ''/logo.png'', req_method = ''GET'', req_headers = []\<rparr> Network_error True Map.empty
       = pass_through Network_error Map.empty"
  by (rule workbox_falsy_pass_through) simp

text \<open>
  C27: the failure branch is not reached when the library does not load. If the CDN
  import fails, \<open>importScripts\<close> throws. If the import succeeds without declaring
  \<open>workbox\<close>, the test \<open>if (workbox)\<close> throws a \<open>ReferenceError\<close>. Either way
  the script aborts and never logs the failure message. The message is logged exactly
  when the global is declared and falsy.
\<close>

theorem load_failure_throws:
  "(import_scripts workbox_cdn_url = None \<longrightarrow> service_worker import_scripts = Inl Import_error)
   \<and> (import_scripts workbox_cdn_url = Some Undeclared \<longrightarrow> service_worker import_scripts = Inl Reference_error)
   \<and> ((\<exists>rts. service_worker import_scripts = Inr (rts, [failed_message]))
        \<longleftrightarrow> import_scripts workbox_cdn_url = Some (Declared False))"
proof -
  have "loaded_message \<noteq> failed_message"
    by (simp add: loaded_message_def failed_message_def)
  then show ?thesis
    by (auto simp: service_worker_def split: option.split js_global.split)
qed

theorem load_failure_throws_witness:
  "service_worker (\<lambda>_. None) = Inl Import_error
   \<and> service_worker (\<lambda>_. Some Undeclared) = Inl Reference_error
   \<and> \<not> (\<exists>rts. service_worker (\<lambda>_. Some (Declared True)) = Inr (rts, [failed_message]))"
  using load_failure_throws [of "\<lambda>_. None"] load_failure_throws [of "\<lambda>_. Some Undeclared"]
    load_failure_throws [of "\<lambda>_. Some (Declared True)"]
  by simp

section \<open>Where the patterns match\<close>

text \<open>
  C15: the positions at which each route pattern matches a URL \<open>u\<close>, in the
  reference semantics \<open>rx_matches\<close>. The CSS and image patterns match only the last
  characters of \<open>u\<close>, so their match starts at position 0 only when \<open>u\<close> is the
  bare extension. The two Google Fonts patterns match only at position 0, over the
  host prefix.
\<close>

theorem pattern_match_positions:
  "(rx_matches css_pattern u i j \<longleftrightarrow> suffix ''.css'' u \<and> i + length ''.css'' = length u \<and> j = length u)
   \<and> (rx_matches image_pattern u i j \<longleftrightarrow>
        (\<exists>a \<in> set [''png'', ''jpg'', ''jpeg'', ''svg'', ''gif''].
           suffix (''.'' @ a) u \<and> i + length (''.'' @ a) = length u) \<and> j = length u)
   \<and> (rx_matches fonts_stylesheets_pattern u i j \<longleftrightarrow>
        i = 0 \<and> prefix ''https://fonts.googleapis.com'' u \<and> j = length ''https://fonts.googleapis.com'')
   \<and> (rx_matches webfonts_pattern u i j \<longleftrightarrow>
        i = 0 \<and> prefix ''https://fonts.gstatic.com'' u \<and> j = length ''https://fonts.gstatic.com'')"
proof (intro conjI)
  show "rx_matches css_pattern u i j \<longleftrightarrow> suffix ''.css'' u \<and> i + length ''.css'' = length u \<and> j = length u"
    unfolding css_pattern_def rx_ends_iff_matches(1) [symmetric] by (rule lit_end_ends)
  have eq: "image_pattern = Cat [Lit ''.'', Alt (map Lit [''png'', ''jpg'', ''jpeg'', ''svg'', ''gif'']), Line_end]"
    by (simp add: image_pattern_def)
  have "rx_matches image_pattern u i j \<longleftrightarrow>
      (\<exists>a \<in> set [''png'', ''jpg'', ''jpeg'', ''svg'', ''gif''].
         take (length (''.'' @ a)) (drop i u) = ''.'' @ a \<and> i + length (''.'' @ a) = length u) \<and> j = length u"
    unfolding eq rx_ends_iff_matches(1) [symmetric] by (rule lit_alts_end_ends)
  also have "\<dots> \<longleftrightarrow> (\<exists>a \<in> set [''png'', ''jpg'', ''jpeg'', ''svg'', ''gif''].
         suffix (''.'' @ a) u \<and> i + length (''.'' @ a) = length u) \<and> j = length u"
    using window_at_end_eq_suffix [of i _ u] by blast
  finally show "rx_matches image_pattern u i j \<longleftrightarrow>
      (\<exists>a \<in> set [''png'', ''jpg'', ''jpeg'', ''svg'', ''gif''].
         suffix (''.'' @ a) u \<and> i + length (''.'' @ a) = length u) \<and> j = length u" .
  show "rx_matches fonts_stylesheets_pattern u i j \<longleftrightarrow>
      i = 0 \<and> prefix ''https://fonts.googleapis.com'' u \<and> j = length ''https://fonts.googleapis.com''"
    unfolding fonts_stylesheets_pattern_def rx_ends_iff_matches(1) [symmetric] by (rule anchored_lit_ends)
  show "rx_matches webfonts_pattern u i j \<longleftrightarrow>
      i = 0 \<and> prefix ''https://fonts.gstatic.com'' u \<and> j = length ''https://fonts.gstatic.com''"
    unfolding webfonts_pattern_def rx_ends_iff_matches(1) [symmetric] by (rule anchored_lit_ends)
qed

end
