(* ===== verification/Worker.thy ===== *)
theory Worker
  imports Routing
begin

text \<open>
  The worker as a state machine (spec, sections 2 and 5): its state is the storage, the
  clock, the background revalidations still in flight, and the number of network
  fetches issued so far. An event is the interception of one request (with the outcome
  of the network fetch it would issue and whether a storage write succeeds), the
  completion of the \<open>i\<close>-th pending revalidation (with its own outcomes), or the clock
  advancing. Interleaving of requests with background completions is the order of the
  events. The invariant: every cache is well formed, every pending revalidation belongs
  to a registered stale-while-revalidate route, and the cache of each route holds only
  responses its filter accepts and no more entries than its expiration plugins allow,
  provided the routes use distinct cache names. The theory also defines the replies the
  page sees in a run, what a well-formed route table is, the invariant that pending
  revalidations come from stale-while-revalidate routes, and that completing pending
  revalidations of plugin-free routes leaves each entry holding the network's answer.
\<close>

record world =
  caches :: storage
  clock :: time
  pending :: "revalidation list"
  network_calls :: nat

datatype event =
    Fetch_event request fetch_result bool
  | Revalidation_done nat fetch_result bool
  | Tick nat

fun worker_event :: "route list \<Rightarrow> world \<Rightarrow> event \<Rightarrow> world" where
  "worker_event rts w (Fetch_event req net write_ok) =
     (let h = handle_fetch rts (clock w) req net write_ok (caches w)
      in w\<lparr>caches := new_storage h,
           pending := pending w @ (case spawned h of None \<Rightarrow> [] | Some rv \<Rightarrow> [rv]),
           network_calls := network_calls w + fetches h\<rparr>)"
| "worker_event rts w (Revalidation_done i net write_ok) =
     (if i < length (pending w)
      then w\<lparr>caches := revalidate (pending w ! i) (clock w) net write_ok (caches w),
             pending := remove_nth i (pending w)\<rparr>
      else w)"
| "worker_event rts w (Tick d) = w\<lparr>clock := clock w + d\<rparr>"

definition run_events :: "route list \<Rightarrow> world \<Rightarrow> event list \<Rightarrow> world" where
  "run_events rts w evs = fold (\<lambda>e w. worker_event rts w e) evs w"

text \<open>
  What the page sees: the reply to each intercepted request, in the order of the events;
  the other events reply nothing.
\<close>

fun event_reply :: "route list \<Rightarrow> world \<Rightarrow> event \<Rightarrow> (sw_error + response) option" where
  "event_reply rts w (Fetch_event req net write_ok) =
     Some (reply (handle_fetch rts (clock w) req net write_ok (caches w)))"
| "event_reply rts w (Revalidation_done i net write_ok) = None"
| "event_reply rts w (Tick d) = None"

fun run_replies :: "route list \<Rightarrow> world \<Rightarrow> event list \<Rightarrow> (sw_error + response) option list" where
  "run_replies rts w [] = []"
| "run_replies rts w (e # evs) = event_reply rts w e # run_replies rts (worker_event rts w e) evs"

text \<open>
  The completions of a list of pending revalidations, in list order, each with the
  network's answer \<open>respond k\<close> for its key and a successful write.
\<close>

definition revalidation_events :: "(request_key \<Rightarrow> response) \<Rightarrow> revalidation list \<Rightarrow> event list" where
  "revalidation_events respond rvs =
     map (\<lambda>rv. Revalidation_done 0 (Fetched (respond (request_key (rv_request rv)))) True) rvs"

definition initial_world :: world where
  "initial_world = \<lparr>caches = Map.empty, clock = 0, pending = [], network_calls = 0\<rparr>"

inductive reachable :: "route list \<Rightarrow> world \<Rightarrow> bool" for rts where
  start: "reachable rts initial_world"
| step: "reachable rts w \<Longrightarrow> reachable rts (worker_event rts w e)"

text \<open>
  The invariant: storage well formed, pending revalidations issued by registered
  routes, and each route's cache within its filter and its count limits.
\<close>

definition route_opts :: "route \<Rightarrow> strategy_options" where
  "route_opts rt = strategy_opts (route_handler rt)"

definition cache_names_distinct :: "route list \<Rightarrow> bool" where
  "cache_names_distinct rts \<longleftrightarrow> distinct (map (\<lambda>rt. cacheName (route_opts rt)) rts)"

definition cache_respects :: "strategy_options \<Rightarrow> named_cache \<Rightarrow> bool" where
  "cache_respects opts es \<longleftrightarrow>
     list_all (\<lambda>e. cacheable (plugins opts) (entry_response e)) es
     \<and> list_all (\<lambda>p. case p of
                      Expiration_plugin cfg \<Rightarrow> (case max_entries cfg of Some m \<Rightarrow> length es \<le> m | None \<Rightarrow> True)
                    | _ \<Rightarrow> True) (plugins opts)"

definition worker_inv :: "route list \<Rightarrow> world \<Rightarrow> bool" where
  "worker_inv rts w \<longleftrightarrow>
     storage_wf (clock w) (caches w)
     \<and> (\<forall>rv \<in> set (pending w). rv_options rv \<in> route_opts ` set rts)
     \<and> (\<forall>rt \<in> set rts. cache_respects (route_opts rt) (open_cache (caches w) (cacheName (route_opts rt))))"

text \<open>
  What the engine expects of a route table (spec, section 3): cache names unique and
  non-empty; a status allowlist non-empty and made of HTTP statuses (0 for an opaque
  response, 100 to 599 otherwise); an expiration plugin with at least one limit and a
  \<open>maxEntries\<close> of at least 1, so that a written entry survives the pass.
\<close>

fun plugin_wf :: "plugin \<Rightarrow> bool" where
  "plugin_wf (Cacheable_response sts) \<longleftrightarrow>
     sts \<noteq> [] \<and> list_all (\<lambda>s. s = 0 \<or> 100 \<le> s \<and> s \<le> 599) sts"
| "plugin_wf (Expiration_plugin cfg) \<longleftrightarrow>
     (max_entries cfg \<noteq> None \<or> max_age_seconds cfg \<noteq> None) \<and> max_entries cfg \<noteq> Some 0"

definition route_table_wf :: "route list \<Rightarrow> bool" where
  "route_table_wf rts \<longleftrightarrow>
     cache_names_distinct rts
     \<and> list_all (\<lambda>rt. cacheName (route_opts rt) \<noteq> [] \<and> list_all plugin_wf (plugins (route_opts rt))) rts"

text \<open>
  A background revalidation is only ever started by a stale-while-revalidate route, for
  a request that route serves, with that route's options.
\<close>

definition pending_from_swr :: "route list \<Rightarrow> world \<Rightarrow> bool" where
  "pending_from_swr rts w \<longleftrightarrow>
     (\<forall>rv \<in> set (pending w). \<exists>rt. match_route rts (rv_request rv) = Some rt
        \<and> route_handler rt = StaleWhileRevalidate (rv_options rv))"

inductive_cases reachable_stepE: "reachable rts w"

lemma run_events_Nil [simp]: "run_events rts w [] = w"
  by (simp add: run_events_def)

lemma run_events_Cons [simp]: "run_events rts w (e # evs) = run_events rts (worker_event rts w e) evs"
  by (simp add: run_events_def)

lemma run_events_append: "run_events rts w (xs @ ys) = run_events rts (run_events rts w xs) ys"
  by (simp add: run_events_def)

lemma reachable_run: "reachable rts w \<Longrightarrow> reachable rts (run_events rts w evs)"
  by (induction evs arbitrary: w) (auto intro: reachable.step)

lemma reachable_iff_run: "reachable rts w \<longleftrightarrow> (\<exists>evs. w = run_events rts initial_world evs)"
proof
  assume "reachable rts w"
  then show "\<exists>evs. w = run_events rts initial_world evs"
  proof (induction rule: reachable.induct)
    case start
    have "initial_world = run_events rts initial_world []" by simp
    then show ?case by blast
  next
    case (step w e)
    then obtain evs where "w = run_events rts initial_world evs" by blast
    then have "worker_event rts w e = run_events rts initial_world (evs @ [e])"
      by (simp add: run_events_append)
    then show ?case by blast
  qed
next
  assume "\<exists>evs. w = run_events rts initial_world evs"
  then show "reachable rts w" using reachable.start reachable_run by blast
qed

section \<open>Facts about the invariant\<close>

lemma worker_inv_respects:
  "worker_inv rts w \<Longrightarrow> opts \<in> route_opts ` set rts \<Longrightarrow>
     cache_respects opts (open_cache (caches w) (cacheName opts))"
  by (auto simp: worker_inv_def)

lemma cache_respects_Nil: "cache_respects opts []"
  by (auto simp: cache_respects_def list_all_iff split: plugin.split option.split)

lemma cache_respects_after_store:
  assumes "cache_respects opts es" and "cacheable (plugins opts) r"
  shows "cache_respects opts (after_store (plugins opts) now (cache_put k r now es))"
proof -
  let ?es' = "after_store (plugins opts) now (cache_put k r now es)"
  have "\<forall>e \<in> set ?es'. cacheable (plugins opts) (entry_response e)"
    using assms after_store_subset [of "plugins opts" now "cache_put k r now es"]
    by (auto simp: cache_respects_def list_all_iff set_cache_put)
  moreover have "length ?es' \<le> m" if "Expiration_plugin cfg \<in> set (plugins opts)" "max_entries cfg = Some m" for cfg m
    using that by (rule after_store_count)
  ultimately show ?thesis
    by (auto simp: cache_respects_def list_all_iff split: plugin.split option.split)
qed

lemma open_cache_store_response:
  "open_cache (store_response opts now write_ok k r st) n =
     (if n = cacheName opts \<and> cacheable (plugins opts) r \<and> write_ok
      then after_store (plugins opts) now (cache_put k r now (open_cache st n))
      else open_cache st n)"
  by (auto simp: store_response_def open_cache_def)

lemma names_distinct_eq:
  "cache_names_distinct rts \<Longrightarrow> rt \<in> set rts \<Longrightarrow> rt' \<in> set rts \<Longrightarrow>
     cacheName (route_opts rt') = cacheName (route_opts rt) \<Longrightarrow> rt' = rt"
  unfolding cache_names_distinct_def by (metis distinct_map inj_onD)

lemma store_response_respects:
  assumes "cache_names_distinct rts" and "rt \<in> set rts"
    and "\<forall>rt' \<in> set rts. cache_respects (route_opts rt') (open_cache st (cacheName (route_opts rt')))"
  shows "\<forall>rt' \<in> set rts. cache_respects (route_opts rt')
           (open_cache (store_response (route_opts rt) now write_ok k r st) (cacheName (route_opts rt')))"
proof
  fix rt' assume rt': "rt' \<in> set rts"
  show "cache_respects (route_opts rt') (open_cache (store_response (route_opts rt) now write_ok k r st)
          (cacheName (route_opts rt')))"
  proof (cases "cacheName (route_opts rt') = cacheName (route_opts rt)")
    case True
    with assms(1,2) rt' have "rt' = rt" by (rule names_distinct_eq)
    with assms(3) rt' show ?thesis
      by (auto simp: open_cache_store_response intro: cache_respects_after_store)
  next
    case False
    with assms(3) rt' show ?thesis by (simp add: open_cache_store_response)
  qed
qed

section \<open>Every step keeps the invariant\<close>

lemma handle_strategy_storage:
  "new_storage (handle_strategy s now req net write_ok st) = st
   \<or> (\<exists>r. new_storage (handle_strategy s now req net write_ok st) =
            store_response (strategy_opts s) now write_ok (request_key req) r st)"
  by (cases s; cases net)
    (auto simp: cache_first_def stale_while_revalidate_def fetch_and_cache_def split: option.split)

lemma handle_strategy_spawned:
  "spawned (handle_strategy s now req net write_ok st) = Some rv \<Longrightarrow> rv_options rv = strategy_opts s"
  by (cases s; cases net)
    (auto simp: cache_first_def stale_while_revalidate_def fetch_and_cache_def split: option.splits)

lemma handle_fetch_storage:
  "new_storage (handle_fetch rts now req net write_ok st) = st
   \<or> (\<exists>rt \<in> set rts. \<exists>r. new_storage (handle_fetch rts now req net write_ok st) =
                            store_response (route_opts rt) now write_ok (request_key req) r st)"
proof (cases "match_route rts req")
  case None
  then show ?thesis by (simp add: handle_fetch_def pass_through_def)
next
  case (Some rt)
  then have "rt \<in> set rts" by (rule match_route_in)
  with Some show ?thesis
    using handle_strategy_storage [of "route_handler rt" now req net write_ok st]
    by (auto simp: handle_fetch_def route_opts_def)
qed

lemma handle_fetch_spawned:
  assumes "spawned (handle_fetch rts now req net write_ok st) = Some rv"
  shows "rv_options rv \<in> route_opts ` set rts"
proof (cases "match_route rts req")
  case None
  with assms show ?thesis by (simp add: handle_fetch_def pass_through_def)
next
  case (Some rt)
  then have "rt \<in> set rts" by (rule match_route_in)
  moreover from Some assms have "rv_options rv = route_opts rt"
    by (simp add: handle_fetch_def route_opts_def handle_strategy_spawned)
  ultimately show ?thesis by blast
qed

lemma revalidate_storage:
  "revalidate rv now net write_ok st = st
   \<or> (\<exists>r. revalidate rv now net write_ok st = store_response (rv_options rv) now write_ok (request_key (rv_request rv)) r st)"
  by (cases net) (auto simp: revalidate_def)

lemma respects_after_write:
  assumes "cache_names_distinct rts"
    and "\<forall>rt \<in> set rts. cache_respects (route_opts rt) (open_cache st (cacheName (route_opts rt)))"
    and "st' = st \<or> (\<exists>rt \<in> set rts. \<exists>r. st' = store_response (route_opts rt) now write_ok k r st)"
  shows "\<forall>rt \<in> set rts. cache_respects (route_opts rt) (open_cache st' (cacheName (route_opts rt)))"
  using assms(3)
proof
  assume "st' = st"
  with assms(2) show ?thesis by simp
next
  assume "\<exists>rt \<in> set rts. \<exists>r. st' = store_response (route_opts rt) now write_ok k r st"
  then obtain rt r where rt: "rt \<in> set rts" and st': "st' = store_response (route_opts rt) now write_ok k r st"
    by blast
  from assms(1) rt assms(2) show ?thesis unfolding st' by (rule store_response_respects)
qed

lemma worker_inv_initial: "worker_inv rts initial_world"
  by (simp add: worker_inv_def initial_world_def storage_wf_def open_cache_def cache_respects_Nil)

lemma fetch_event_inv:
  assumes "cache_names_distinct rts" and "worker_inv rts w"
  shows "worker_inv rts (worker_event rts w (Fetch_event req net write_ok))"
proof -
  let ?h = "handle_fetch rts (clock w) req net write_ok (caches w)"
  have "\<forall>rt \<in> set rts. cache_respects (route_opts rt) (open_cache (new_storage ?h) (cacheName (route_opts rt)))"
  proof (rule respects_after_write [OF assms(1) _ handle_fetch_storage])
    show "\<forall>rt \<in> set rts. cache_respects (route_opts rt) (open_cache (caches w) (cacheName (route_opts rt)))"
      using assms(2) by (simp add: worker_inv_def)
  qed
  moreover have "storage_wf (clock w) (new_storage ?h)"
    using assms(2) by (simp add: worker_inv_def handle_fetch_wf)
  moreover have "\<forall>rv \<in> set (case spawned ?h of None \<Rightarrow> [] | Some rv \<Rightarrow> [rv]). rv_options rv \<in> route_opts ` set rts"
    by (auto split: option.split intro: handle_fetch_spawned [OF sym])
  ultimately show ?thesis
    using assms(2) by (auto simp: worker_inv_def Let_def)
qed

lemma completion_inv:
  assumes "cache_names_distinct rts" and "worker_inv rts w" and i: "i < length (pending w)"
  shows "worker_inv rts (worker_event rts w (Revalidation_done i net write_ok))"
proof -
  let ?rv = "pending w ! i"
  from i have "?rv \<in> set (pending w)" by simp
  with assms(2) obtain rt where rt: "rt \<in> set rts" and opts: "rv_options ?rv = route_opts rt"
    by (force simp: worker_inv_def)
  have "\<forall>rt' \<in> set rts. cache_respects (route_opts rt')
          (open_cache (revalidate ?rv (clock w) net write_ok (caches w)) (cacheName (route_opts rt')))"
  proof (rule respects_after_write [OF assms(1)])
    show "\<forall>rt \<in> set rts. cache_respects (route_opts rt) (open_cache (caches w) (cacheName (route_opts rt)))"
      using assms(2) by (simp add: worker_inv_def)
    show "revalidate ?rv (clock w) net write_ok (caches w) = caches w
      \<or> (\<exists>rt \<in> set rts. \<exists>r. revalidate ?rv (clock w) net write_ok (caches w) =
           store_response (route_opts rt) (clock w) write_ok (request_key (rv_request ?rv)) r (caches w))"
      using revalidate_storage [of ?rv "clock w" net write_ok "caches w"] rt opts by auto
  qed
  with i assms(2) show ?thesis
    using set_remove_nth [of i "pending w"]
    by (auto simp: worker_inv_def revalidate_wf)
qed

lemma worker_event_inv:
  assumes "cache_names_distinct rts" and "worker_inv rts w"
  shows "worker_inv rts (worker_event rts w e)"
proof (cases e)
  case (Fetch_event req net write_ok)
  with fetch_event_inv [OF assms] show ?thesis by simp
next
  case (Revalidation_done i net write_ok)
  with completion_inv [OF assms] assms(2) show ?thesis by (cases "i < length (pending w)") simp_all
next
  case (Tick d)
  with assms(2) show ?thesis by (auto simp: worker_inv_def intro: storage_wf_mono)
qed

lemma reachable_worker_inv:
  assumes "cache_names_distinct rts" and "reachable rts w"
  shows "worker_inv rts w"
  using assms(2)
proof (induction rule: reachable.induct)
  case start
  show ?case by (rule worker_inv_initial)
next
  case (step w e)
  from assms(1) step.IH show ?case by (rule worker_event_inv)
qed

section \<open>Well-formed route tables\<close>

lemma route_table_wf_keeps_newest:
  "route_table_wf rts \<Longrightarrow> rt \<in> set rts \<Longrightarrow> keeps_newest (plugins (route_opts rt))"
  by (fastforce simp: route_table_wf_def keeps_newest_def list_all_iff split: plugin.split)

lemma route_table_wf_inv: "route_table_wf rts \<Longrightarrow> reachable rts w \<Longrightarrow> worker_inv rts w"
  unfolding route_table_wf_def by (blast intro: reachable_worker_inv)

lemma handle_fetch_miss_read_back:
  assumes "route_table_wf rts" and "match_route rts req = Some rt"
    and "storage_match st (cacheName (route_opts rt)) (request_key req) = None"
    and "cacheable (plugins (route_opts rt)) r"
  shows "reply (handle_fetch rts now req (Fetched r) True st) = Inr r
       \<and> storage_match (new_storage (handle_fetch rts now req (Fetched r) True st))
           (cacheName (route_opts rt)) (request_key req) = Some r"
proof -
  have kn: "keeps_newest (plugins (route_opts rt))"
    using route_table_wf_keeps_newest [OF assms(1) match_route_in [OF assms(2)]] .
  have "handle_fetch rts now req (Fetched r) True st =
          fetch_and_cache (route_opts rt) now req (Fetched r) True st"
    using assms(2,3)
    by (cases "route_handler rt") (simp_all add: handle_fetch_matched route_opts_def cache_first_miss
        stale_while_revalidate_miss)
  then show ?thesis
    using store_response_match [OF assms(4) kn] by (simp add: fetch_and_cache_fetched)
qed

section \<open>Where pending revalidations come from\<close>

lemma handle_fetch_spawned_route:
  assumes "spawned (handle_fetch rts now req net write_ok st) = Some rv"
  shows "rv_request rv = req \<and> (\<exists>rt. match_route rts req = Some rt
           \<and> route_handler rt = StaleWhileRevalidate (rv_options rv))"
proof (cases "match_route rts req")
  case None
  with assms show ?thesis by (simp add: handle_fetch_def pass_through_def)
next
  case (Some rt)
  with assms show ?thesis
    by (cases "route_handler rt"; cases net)
      (auto simp: handle_fetch_def cache_first_def stale_while_revalidate_def fetch_and_cache_def
        split: option.splits)
qed

lemma worker_event_pending_from_swr:
  "pending_from_swr rts w \<Longrightarrow> pending_from_swr rts (worker_event rts w e)"
proof (cases e)
  case (Fetch_event req net write_ok)
  moreover assume "pending_from_swr rts w"
  ultimately show ?thesis
    by (auto simp: pending_from_swr_def Let_def split: option.split dest!: handle_fetch_spawned_route [OF sym])
next
  case (Revalidation_done i net write_ok)
  moreover assume "pending_from_swr rts w"
  ultimately show ?thesis
    using set_remove_nth [of i "pending w"] by (auto simp: pending_from_swr_def)
next
  case (Tick d)
  moreover assume "pending_from_swr rts w"
  ultimately show ?thesis by (simp add: pending_from_swr_def)
qed

lemma reachable_pending_from_swr: "reachable rts w \<Longrightarrow> pending_from_swr rts w"
proof (induction rule: reachable.induct)
  case start
  show ?case by (simp add: pending_from_swr_def initial_world_def)
next
  case (step w e)
  from step.IH show ?case by (rule worker_event_pending_from_swr)
qed


section \<open>Background revalidations refresh their entries\<close>

lemma revalidate_plugin_free:
  assumes "plugins (rv_options rv) = []" and "status (respond (request_key (rv_request rv))) = 200"
  shows "storage_match (revalidate rv now (Fetched (respond (request_key (rv_request rv)))) True st)
           (cacheName (rv_options rv)) (request_key (rv_request rv)) = Some (respond (request_key (rv_request rv)))"
    and "storage_match st n k = Some (respond k) \<Longrightarrow>
         storage_match (revalidate rv now (Fetched (respond (request_key (rv_request rv)))) True st) n k = Some (respond k)"
proof -
  let ?k = "request_key (rv_request rv)"
  have c: "cacheable (plugins (rv_options rv)) (respond ?k)" using assms by (simp add: cacheable_def)
  show "storage_match (revalidate rv now (Fetched (respond ?k)) True st) (cacheName (rv_options rv)) ?k = Some (respond ?k)"
    using store_response_match [OF c, of now ?k st] assms(1) by (simp add: revalidate_def keeps_newest_def)
  assume "storage_match st n k = Some (respond k)"
  then show "storage_match (revalidate rv now (Fetched (respond ?k)) True st) n k = Some (respond k)"
    using c assms(1)
    by (cases "n = cacheName (rv_options rv)")
      (auto simp: revalidate_def storage_match_open_cache open_cache_store_response cache_put_match)
qed

lemma run_revalidations_refresh:
  assumes "pending W = ps"
    and "\<forall>rv \<in> set ps. plugins (rv_options rv) = [] \<and> status (respond (request_key (rv_request rv))) = 200"
  shows "pending (run_events rts W (revalidation_events respond ps)) = []
       \<and> (\<forall>rv \<in> set ps. storage_match (caches (run_events rts W (revalidation_events respond ps)))
              (cacheName (rv_options rv)) (request_key (rv_request rv)) = Some (respond (request_key (rv_request rv))))
       \<and> (\<forall>n k. storage_match (caches W) n k = Some (respond k) \<longrightarrow>
              storage_match (caches (run_events rts W (revalidation_events respond ps))) n k = Some (respond k))"
  using assms
proof (induction ps arbitrary: W)
  case Nil
  then show ?case by (simp add: revalidation_events_def)
next
  case (Cons rv ps)
  let ?W' = "worker_event rts W (Revalidation_done 0 (Fetched (respond (request_key (rv_request rv)))) True)"
  have rv: "plugins (rv_options rv) = []" "status (respond (request_key (rv_request rv))) = 200"
    using Cons.prems(2) by simp_all
  have p': "pending ?W' = ps" using Cons.prems(1) by (simp add: remove_nth_def)
  have c': "caches ?W' = revalidate rv (clock W) (Fetched (respond (request_key (rv_request rv)))) True (caches W)"
    using Cons.prems(1) by simp
  from Cons.IH [OF p'] Cons.prems(2)
  have IH: "pending (run_events rts ?W' (revalidation_events respond ps)) = []
       \<and> (\<forall>rv \<in> set ps. storage_match (caches (run_events rts ?W' (revalidation_events respond ps)))
              (cacheName (rv_options rv)) (request_key (rv_request rv)) = Some (respond (request_key (rv_request rv))))
       \<and> (\<forall>n k. storage_match (caches ?W') n k = Some (respond k) \<longrightarrow>
              storage_match (caches (run_events rts ?W' (revalidation_events respond ps))) n k = Some (respond k))"
    by simp
  have run: "run_events rts W (revalidation_events respond (rv # ps)) = run_events rts ?W' (revalidation_events respond ps)"
    by (simp add: revalidation_events_def del: worker_event.simps)
  have "storage_match (caches ?W') (cacheName (rv_options rv)) (request_key (rv_request rv))
          = Some (respond (request_key (rv_request rv)))"
    unfolding c' using revalidate_plugin_free(1) [where rv = rv and respond = respond, OF rv] .
  moreover have "storage_match (caches W) n k = Some (respond k) \<Longrightarrow> storage_match (caches ?W') n k = Some (respond k)"
    for n k unfolding c' using revalidate_plugin_free(2) [where rv = rv and respond = respond, OF rv] .
  ultimately show ?case unfolding run using IH by auto
qed

end
