(* ===== verification/Worker_Spec.thy ===== *)
theory Worker_Spec
  imports Worker "HOL-Library.Multiset"
begin

text \<open>
  An abstract specification of the worker, the contract of spec sections 3 to 5 without
  the list representation of the store. Each named cache is a map from request keys to
  responses, and the background revalidations in flight are a multiset: they have no
  order, and any of them may complete next. The state also counts the network fetches
  issued: a cache-first hit issues none, and every other interception issues one. A write of an accepted response makes its
  cache a sub-map of the old map updated at the written key. It keeps the written entry
  when no expiration plugin has \<open>maxEntries = 0\<close>. It is exactly the map update when
  the route has no expiration plugin. \<open>abs_world\<close> reads the concrete state this way.
  The simulation lemma: every step of \<open>worker_event\<close> from a state with a well formed
  storage is a step of \<open>spec_step\<close>.
\<close>

type_synonym cache_maps = "cache_name \<Rightarrow> request_key \<rightharpoonup> response"

record spec_state =
  sp_caches :: cache_maps
  sp_clock :: time
  sp_pending :: "revalidation multiset"
  sp_fetches :: nat

datatype spec_event =
    Intercept request fetch_result bool
  | Complete revalidation fetch_result bool
  | Advance nat
  | Idle

definition spec_write ::
  "strategy_options \<Rightarrow> bool \<Rightarrow> request_key \<Rightarrow> response \<Rightarrow> cache_maps \<Rightarrow> cache_maps \<Rightarrow> bool" where
  "spec_write opts write_ok k r m m' \<longleftrightarrow>
     (if cacheable (plugins opts) r \<and> write_ok
      then (\<forall>n. n \<noteq> cacheName opts \<longrightarrow> m' n = m n)
           \<and> m' (cacheName opts) \<subseteq>\<^sub>m (m (cacheName opts))(k \<mapsto> r)
           \<and> (keeps_newest (plugins opts) \<longrightarrow> m' (cacheName opts) k = Some r)
           \<and> ([cfg. Expiration_plugin cfg \<leftarrow> plugins opts] = [] \<longrightarrow>
                m' (cacheName opts) = (m (cacheName opts))(k \<mapsto> r))
      else m' = m)"

inductive spec_step :: "route list \<Rightarrow> spec_state \<Rightarrow> spec_event \<Rightarrow> spec_state \<Rightarrow> bool" for rts where
  bypass: "match_route rts req = None \<Longrightarrow>
     spec_step rts S (Intercept req net write_ok) (S\<lparr>sp_fetches := Suc (sp_fetches S)\<rparr>)"
| hit_cache_first:
    "match_route rts req = Some rt \<Longrightarrow> route_handler rt = CacheFirst opts \<Longrightarrow>
     sp_caches S (cacheName opts) (request_key req) = Some r \<Longrightarrow>
     spec_step rts S (Intercept req net write_ok) S"
| hit_revalidate:
    "match_route rts req = Some rt \<Longrightarrow> route_handler rt = StaleWhileRevalidate opts \<Longrightarrow>
     sp_caches S (cacheName opts) (request_key req) = Some r \<Longrightarrow>
     spec_step rts S (Intercept req net write_ok)
       (S\<lparr>sp_pending := sp_pending S + {#\<lparr>rv_options = opts, rv_request = req\<rparr>#},
          sp_fetches := Suc (sp_fetches S)\<rparr>)"
| miss_failed:
    "match_route rts req = Some rt \<Longrightarrow> strategy_opts (route_handler rt) = opts \<Longrightarrow>
     sp_caches S (cacheName opts) (request_key req) = None \<Longrightarrow>
     spec_step rts S (Intercept req Network_error write_ok) (S\<lparr>sp_fetches := Suc (sp_fetches S)\<rparr>)"
| miss_fetched:
    "match_route rts req = Some rt \<Longrightarrow> strategy_opts (route_handler rt) = opts \<Longrightarrow>
     sp_caches S (cacheName opts) (request_key req) = None \<Longrightarrow>
     spec_write opts write_ok (request_key req) r (sp_caches S) m \<Longrightarrow>
     spec_step rts S (Intercept req (Fetched r) write_ok)
       (S\<lparr>sp_caches := m, sp_fetches := Suc (sp_fetches S)\<rparr>)"
| complete_failed:
    "rv \<in># sp_pending S \<Longrightarrow>
     spec_step rts S (Complete rv Network_error write_ok) (S\<lparr>sp_pending := sp_pending S - {#rv#}\<rparr>)"
| complete_fetched:
    "rv \<in># sp_pending S \<Longrightarrow>
     spec_write (rv_options rv) write_ok (request_key (rv_request rv)) r (sp_caches S) m \<Longrightarrow>
     spec_step rts S (Complete rv (Fetched r) write_ok) (S\<lparr>sp_caches := m, sp_pending := sp_pending S - {#rv#}\<rparr>)"
| advance: "spec_step rts S (Advance d) (S\<lparr>sp_clock := sp_clock S + d\<rparr>)"
| idle: "spec_step rts S Idle S"

definition spec_initial :: spec_state where
  "spec_initial = \<lparr>sp_caches = \<lambda>n. Map.empty, sp_clock = 0, sp_pending = {#}, sp_fetches = 0\<rparr>"

inductive spec_reachable :: "route list \<Rightarrow> spec_state \<Rightarrow> bool" for rts where
  start: "spec_reachable rts spec_initial"
| step: "spec_reachable rts S \<Longrightarrow> spec_step rts S e S' \<Longrightarrow> spec_reachable rts S'"

definition abs_caches :: "storage \<Rightarrow> cache_maps" where
  "abs_caches st = (\<lambda>n. cache_match (open_cache st n))"

definition abs_world :: "world \<Rightarrow> spec_state" where
  "abs_world w =
     \<lparr>sp_caches = abs_caches (caches w), sp_clock = clock w, sp_pending = mset (pending w),
      sp_fetches = network_calls w\<rparr>"

fun abs_event :: "world \<Rightarrow> event \<Rightarrow> spec_event" where
  "abs_event w (Fetch_event req net write_ok) = Intercept req net write_ok"
| "abs_event w (Revalidation_done i net write_ok) =
     (if i < length (pending w) then Complete (pending w ! i) net write_ok else Idle)"
| "abs_event w (Tick d) = Advance d"

section \<open>The store refines the map\<close>

lemma cache_match_subseq_le:
  assumes "distinct (map entry_key es)" and "subseq es' es"
  shows "cache_match es' \<subseteq>\<^sub>m cache_match es"
  unfolding map_le_def
proof
  fix k assume "k \<in> dom (cache_match es')"
  then obtain r where r: "cache_match es' k = Some r" by blast
  then obtain e where "e \<in> set es'" and "entry_key e = k" and "entry_response e = r"
    by (blast dest: cache_match_Some_in)
  moreover from assms(2) \<open>e \<in> set es'\<close> have "e \<in> set es" by (blast dest: list_emb_set)
  ultimately show "cache_match es' k = cache_match es k"
    using r cache_match_in_distinct [OF assms(1)] by metis
qed

lemma after_store_no_expiration:
  "[cfg. Expiration_plugin cfg \<leftarrow> ps] = [] \<Longrightarrow> after_store ps now es = es"
  by (induction ps) (auto split: plugin.splits)

lemma store_response_spec_write:
  assumes "storage_wf now st"
  shows "spec_write opts write_ok k r (abs_caches st) (abs_caches (store_response opts now write_ok k r st))"
proof (cases "cacheable (plugins opts) r \<and> write_ok")
  case True
  let ?es = "open_cache st (cacheName opts)"
  let ?put = "cache_put k r now ?es"
  have "cache_wf ?put"
    using storage_wf_open_cache [OF assms] by (blast intro: cache_put_wf)
  then have "cache_match (after_store (plugins opts) now ?put) \<subseteq>\<^sub>m cache_match ?put"
    by (simp add: cache_wf_def cache_match_subseq_le after_store_subseq)
  moreover have "keeps_newest (plugins opts) \<Longrightarrow>
      cache_match (open_cache (store_response opts now write_ok k r st) (cacheName opts)) k = Some r"
    using True store_response_match [of opts r now k st] by (simp add: storage_match_open_cache)
  ultimately show ?thesis using True
    by (auto simp: spec_write_def abs_caches_def open_cache_store_response cache_put_match
        after_store_no_expiration)
next
  case False
  then show ?thesis by (auto simp: spec_write_def abs_caches_def open_cache_store_response)
qed

lemma mset_remove_nth: "i < length xs \<Longrightarrow> mset (remove_nth i xs) = mset xs - {#xs ! i#}"
proof -
  assume i: "i < length xs"
  have "mset xs = mset (take i xs) + mset (drop (Suc i) xs) + {#xs ! i#}"
    using id_take_nth_drop [OF i] by (metis mset.simps(2) mset_append add_mset_add_single union_assoc
        add.commute)
  then show ?thesis by (simp add: remove_nth_def)
qed

section \<open>Every step of the worker is a step of the specification\<close>

lemma sp_caches_abs_world [simp]: "sp_caches (abs_world w) n k = storage_match (caches w) n k"
  by (simp add: abs_world_def abs_caches_def storage_match_open_cache)

lemma abs_world_fetch:
  "abs_world (worker_event rts w (Fetch_event req net write_ok)) =
     (let h = handle_fetch rts (clock w) req net write_ok (caches w)
      in abs_world w\<lparr>sp_caches := abs_caches (new_storage h),
                     sp_pending := mset (pending w) + (case spawned h of None \<Rightarrow> {#} | Some rv \<Rightarrow> {#rv#}),
                     sp_fetches := network_calls w + fetches h\<rparr>)"
  by (simp add: abs_world_def Let_def split: option.split)

lemma fetch_hit_refines:
  assumes m: "match_route rts req = Some rt"
    and hit: "storage_match (caches w) (cacheName (strategy_opts (route_handler rt))) (request_key req) = Some r"
  shows "spec_step rts (abs_world w) (Intercept req net write_ok)
           (abs_world (worker_event rts w (Fetch_event req net write_ok)))"
proof (cases "route_handler rt")
  case (CacheFirst opts)
  with m hit have "abs_world (worker_event rts w (Fetch_event req net write_ok)) = abs_world w"
    by (simp add: abs_world_fetch handle_fetch_matched cache_first_hit abs_world_def)
  with m CacheFirst hit show ?thesis by (auto intro: spec_step.hit_cache_first)
next
  case (StaleWhileRevalidate opts)
  let ?S' = "(abs_world w)\<lparr>sp_pending := sp_pending (abs_world w) + {#\<lparr>rv_options = opts, rv_request = req\<rparr>#},
                            sp_fetches := Suc (sp_fetches (abs_world w))\<rparr>"
  from m hit StaleWhileRevalidate
  have "abs_world (worker_event rts w (Fetch_event req net write_ok)) = ?S'"
    by (simp add: abs_world_fetch handle_fetch_matched stale_while_revalidate_hit abs_world_def)
  moreover have "spec_step rts (abs_world w) (Intercept req net write_ok) ?S'"
    using hit StaleWhileRevalidate by (intro spec_step.hit_revalidate [OF m]) simp_all
  ultimately show ?thesis by simp
qed

lemma fetch_miss_refines:
  assumes wf: "storage_wf (clock w) (caches w)" and m: "match_route rts req = Some rt"
    and miss: "storage_match (caches w) (cacheName (strategy_opts (route_handler rt))) (request_key req) = None"
  shows "spec_step rts (abs_world w) (Intercept req net write_ok)
           (abs_world (worker_event rts w (Fetch_event req net write_ok)))"
proof -
  let ?opts = "strategy_opts (route_handler rt)"
  let ?k = "request_key req"
  have h: "handle_fetch rts (clock w) req net write_ok (caches w) =
             fetch_and_cache ?opts (clock w) req net write_ok (caches w)"
    using m miss
    by (cases "route_handler rt") (simp_all add: handle_fetch_matched cache_first_miss stale_while_revalidate_miss)
  show ?thesis
  proof (cases net)
    case Network_error
    then have "abs_world (worker_event rts w (Fetch_event req net write_ok)) =
                 (abs_world w)\<lparr>sp_fetches := Suc (sp_fetches (abs_world w))\<rparr>"
      by (simp add: abs_world_fetch h [unfolded Network_error] fetch_and_cache_error abs_world_def)
    with m miss Network_error show ?thesis by (auto intro: spec_step.miss_failed)
  next
    case (Fetched r)
    then have "abs_world (worker_event rts w (Fetch_event req net write_ok)) =
        (abs_world w)\<lparr>sp_caches := abs_caches (store_response ?opts (clock w) write_ok ?k r (caches w)),
                      sp_fetches := Suc (sp_fetches (abs_world w))\<rparr>"
      by (simp add: abs_world_fetch h [unfolded Fetched] fetch_and_cache_fetched abs_world_def)
    moreover have "spec_write ?opts write_ok ?k r (sp_caches (abs_world w))
        (abs_caches (store_response ?opts (clock w) write_ok ?k r (caches w)))"
      using store_response_spec_write [OF wf] by (simp add: abs_world_def)
    ultimately show ?thesis using m miss Fetched by (auto intro: spec_step.miss_fetched)
  qed
qed

lemma fetch_refines:
  assumes wf: "storage_wf (clock w) (caches w)"
  shows "spec_step rts (abs_world w) (Intercept req net write_ok)
           (abs_world (worker_event rts w (Fetch_event req net write_ok)))"
proof (cases "match_route rts req")
  case None
  then have "abs_world (worker_event rts w (Fetch_event req net write_ok)) =
               (abs_world w)\<lparr>sp_fetches := Suc (sp_fetches (abs_world w))\<rparr>"
    by (simp add: abs_world_fetch handle_fetch_unmatched pass_through_def abs_world_def)
  with None show ?thesis by (simp add: spec_step.bypass)
next
  case (Some rt)
  then show ?thesis
    using fetch_hit_refines [OF Some] fetch_miss_refines [OF wf Some]
    by (cases "storage_match (caches w) (cacheName (strategy_opts (route_handler rt))) (request_key req)") auto
qed

lemma completion_refines:
  assumes wf: "storage_wf (clock w) (caches w)"
  shows "spec_step rts (abs_world w) (abs_event w (Revalidation_done i net write_ok))
           (abs_world (worker_event rts w (Revalidation_done i net write_ok)))"
proof (cases "i < length (pending w)")
  case True
  let ?rv = "pending w ! i"
  have mem: "?rv \<in># sp_pending (abs_world w)" using True by (simp add: abs_world_def)
  have pend: "mset (remove_nth i (pending w)) = sp_pending (abs_world w) - {#?rv#}"
    using True by (simp add: abs_world_def mset_remove_nth)
  show ?thesis
  proof (cases net)
    case Network_error
    with True pend show ?thesis
      using spec_step.complete_failed [OF mem, of rts write_ok]
      by (simp add: abs_world_def revalidate_def)
  next
    case (Fetched r)
    have "spec_write (rv_options ?rv) write_ok (request_key (rv_request ?rv)) r (sp_caches (abs_world w))
        (abs_caches (revalidate ?rv (clock w) net write_ok (caches w)))"
      using store_response_spec_write [OF wf] Fetched by (simp add: abs_world_def revalidate_def)
    from spec_step.complete_fetched [OF mem this] True pend Fetched show ?thesis
      by (simp add: abs_world_def)
  qed
next
  case False
  then show ?thesis by (simp add: spec_step.idle)
qed

lemma worker_event_refines:
  assumes "storage_wf (clock w) (caches w)"
  shows "spec_step rts (abs_world w) (abs_event w e) (abs_world (worker_event rts w e))"
proof (cases e)
  case (Fetch_event req net write_ok)
  with fetch_refines [OF assms] show ?thesis by simp
next
  case (Revalidation_done i net write_ok)
  with completion_refines [OF assms] show ?thesis by simp
next
  case (Tick d)
  then show ?thesis using spec_step.advance [of rts "abs_world w" d] by (simp add: abs_world_def)
qed

lemma reachable_refines:
  assumes "cache_names_distinct rts" and "reachable rts w"
  shows "spec_reachable rts (abs_world w)"
  using assms(2)
proof (induction rule: reachable.induct)
  case start
  have "abs_world initial_world = spec_initial"
    by (simp add: abs_world_def initial_world_def spec_initial_def abs_caches_def open_cache_def fun_eq_iff)
  then show ?case by (simp add: spec_reachable.start)
next
  case (step w e)
  have "storage_wf (clock w) (caches w)"
    using reachable_worker_inv [OF assms(1) step.hyps] by (simp add: worker_inv_def)
  with step.IH show ?case by (blast intro: spec_reachable.step worker_event_refines)
qed

end
