(* ===== verification/Spec2Isabelle.thy ===== *)
theory Spec2Isabelle
  imports Service_Worker Worker Worker_Spec
begin

text \<open>
  \<^bold>\<open>A verification development for \<open>src/static/service-worker.js\<close>.\<close>

  \<^bold>\<open>The program.\<close> The repository's one source file is the script of a browser
  service worker. It loads Workbox 4.2.0 (\<open>importScripts\<close>, line 1). When the
  \<open>workbox\<close> global is truthy, it logs a message and registers four routes in order
  (lines 5 to 55). When the global is declared but falsy, it logs a failure (line 58).
  An import error or an undeclared global aborts the script instead. The routes are: CSS files,
  stale-while-revalidate into \<open>css-cache\<close>; images, cache-first into \<open>image-cache\<close>
  with expiration after 20 entries or one week; Google Fonts stylesheets,
  stale-while-revalidate into \<open>google-fonts-stylesheets\<close>; Google Fonts webfont files,
  cache-first into \<open>google-fonts-webfonts\<close>, caching statuses 0 and 200, with expiration
  after one year. The caching engine these calls configure (router, strategies, cache
  store, expiration, response filter) is Workbox itself, loaded from a CDN and not part
  of \<open>src/\<close>. It is modelled from \<open>spec.md\<close>, which describes that engine.

  \<^bold>\<open>How the parts interact.\<close> A request goes to the router (\<open>match_route\<close>: first
  registered route whose pattern tests true on the URL). An unmatched request passes
  through to the network (\<open>pass_through\<close>). A matched request runs its strategy
  (\<open>cache_first\<close> or \<open>stale_while_revalidate\<close>), which reads the route's named cache
  (\<open>storage_match\<close>) and may fetch (\<open>fetch_and_cache\<close>). A fetched response goes
  through the filter (\<open>cacheable\<close>); if accepted and the storage write succeeds, it is
  written (\<open>cache_put\<close>) and the route's expiration plugins run on that cache
  (\<open>after_store\<close>, \<open>expire_entries\<close>). Stale-while-revalidate on a hit returns the
  cached response and spawns a background revalidation, which completes later as a
  separate event (\<open>revalidate\<close>).

  \<^bold>\<open>Theories.\<close>
  \<^item> \<open>Prelude\<close>: type names (\<open>url\<close>, \<open>time\<close> in seconds, \<open>byte = 8 word\<close>), rule
    collections \<open>regex_simps\<close>, \<open>store_simps\<close> and \<open>handler_simps\<close>, and list lemmas
    (string windows, prefixes and suffixes, keeping the last \<open>n\<close> elements).
  \<^item> \<open>Regex\<close>: the JavaScript RegExp fragment the patterns use (\<open>rx\<close>, \<open>rx_ends\<close>,
    \<open>regex_test\<close> = \<open>RegExp.prototype.test\<close>), and the reference semantics
    \<open>rx_matches\<close> (an inductive relation on match start and end positions). It proves
    that the matcher computes exactly the reference semantics, and that \<open>/^lit/\<close> tests a
    prefix, \<open>/lit$/\<close> a suffix, and \<open>/lit(?:a|b)$/\<close> one of several suffixes.
  \<^item> \<open>Http\<close>: \<open>request\<close>, \<open>response\<close> (status, headers, body bytes),
    \<open>fetch_result\<close>, \<open>sw_error\<close>, and \<open>request_key\<close> (the URL).
  \<^item> \<open>Cache_Store\<close>: a named cache is a list of \<open>cache_entry\<close> in insertion order.
    The storage maps cache names to caches; a cache is created on its first write.
    \<open>cache_put\<close> replaces the key and appends. The theory proves
    \<open>cache_match (cache_put k r t es) = (cache_match es)(k \<mapsto> r)\<close> (the map-ADT
    refinement) and that \<open>cache_wf\<close> (distinct keys, ordered times) is preserved.
  \<^item> \<open>Expiration\<close>: \<open>expire_entries\<close> prunes by age (age strictly above
    \<open>maxAgeSeconds\<close>), then by count, keeping the last \<open>n\<close> entries. It proves
    both bounds; that a pass only removes entries, keeps the newest, and on an ordered
    cache removes only a prefix; and that a pass is idempotent. The spec's count
    pruning, written as the loop it describes, is \<open>prune_count\<close>. It is a
    \<open>while_option\<close> that removes the oldest-inserted entry (\<open>oldest_index\<close>: least
    insertion time, earliest position among ties) until \<open>n\<close> remain.
    \<open>expire_reference\<close> is the pass built on that loop. The theory proves that the
    loop stops on every cache (\<open>prune_count_Some\<close>). It also proves that on a cache
    whose times are in order the loop equals \<open>expire_entries\<close>
    (\<open>expire_reference_sorted\<close>).
  \<^item> \<open>Strategies\<close>: \<open>plugin\<close>, \<open>strategy_options\<close>, \<open>strategy\<close> (as in
    \<open>new CacheFirst({cacheName, plugins})\<close>), the filter, \<open>store_response\<close>, the two
    handlers and \<open>revalidate\<close>. A handler returns the reply
    (\<open>sw_error + response\<close>), the new storage, the number of network fetches it
    issued, and the revalidation it spawned. Lemmas: each handler on each branch
    (\<open>handler_simps\<close>), read-after-write through the filter and expiration, and that
    every handler preserves \<open>storage_wf\<close>.
  \<^item> \<open>Routing\<close>: \<open>route\<close>, \<open>register_route\<close> (appends), \<open>match_route\<close> (first
    match), and \<open>handle_fetch\<close> (the whole interception of one request).
  \<^item> \<open>Service_Worker\<close>: the script itself, one constant per expression of the source
    (patterns, cache names, limits, each \<open>new Plugin(...)\<close>, each plugins array and
    options object, the strategies, and the four \<open>registerRoute\<close> calls).
    \<open>service_worker\<close> models the script's outcomes: the import may fail,
    the \<open>workbox\<close> global may be undeclared, or it may be truthy or falsy. The
    result is an exception or the route table plus console output. Claims about which
    route serves which URL, at which positions each pattern matches, and about load
    failure, are stated here.
  \<^item> \<open>Worker\<close>: the worker as a state machine. A \<open>world\<close> holds the storage, clock,
    pending revalidations and fetch count. \<open>worker_event\<close> handles three events:
    a request arrives (with the network outcome and whether the write succeeds), the
    \<open>i\<close>-th revalidation completes, or the clock advances. \<open>reachable\<close> is the
    inductive set of states reachable from the empty storage. The invariant
    \<open>worker_inv\<close> (storage well formed, pending revalidations issued by registered
    routes, each route's cache within its filter and count limit) is preserved by every
    event whenever the routes use distinct cache names. \<open>event_reply\<close> and
    \<open>run_replies\<close> give what the page receives for each event of a run.
    \<open>route_table_wf\<close> states what the engine expects of a route table: distinct
    non-empty cache names, allowlists of HTTP statuses, and expiration plugins with a
    limit and \<open>maxEntries \<ge> 1\<close>. \<open>pending_from_swr\<close> is a second invariant:
    every pending revalidation was started by a stale-while-revalidate route for a
    request that route serves. \<open>revalidation_events\<close> completes a list of pending
    revalidations in order. \<open>run_revalidations_refresh\<close> shows that for plugin-free
    routes this empties the pending list and leaves each entry holding the network's
    answer.
  \<^item> \<open>Worker_Spec\<close>: an abstract specification of the worker. Each cache is a map
    from keys to responses (\<open>cache_maps\<close>), and the pending revalidations are a
    multiset, and a counter holds the network fetches issued. \<open>spec_write\<close> is the
    store's contract. An accepted write leaves the
    other caches alone. It makes the written cache a sub-map of the old one updated at
    the key, keeps the key when no plugin has \<open>maxEntries = 0\<close>, and is exactly the
    update without expiration plugins. \<open>spec_step\<close> is an inductive step relation
    whose rules follow the spec's control flow. \<open>abs_world\<close> reads a concrete state
    as an abstract one. The simulation lemma \<open>worker_event_refines\<close> and its
    corollary \<open>reachable_refines\<close> show that the worker implements the
    specification.
  \<^item> \<open>Spec2Isabelle\<close> (this theory): the claims that span components, stated for the
    configured route table \<open>workbox_routes = register_routes []\<close>, which
    \<open>service_worker\<close> installs when the import defines a truthy \<open>workbox\<close>. They cover
    hits, misses, network and storage failures, background revalidation, the
    invariants of reachable states, image-cache expiration, a 25-write sequence,
    read-after-write on every route, and refinement of \<open>css-cache\<close> to a map. They
    also cover: equivalence of the image route's pass with the spec's eviction loop in
    every reachable state; refinement of the whole worker by \<open>Worker_Spec\<close>; the
    order in which stale and fresh CSS responses are seen around a revalidation; the
    origin of pending revalidations; and that completing them refreshes their
    entries.

  \<^bold>\<open>Bounds, fuel and interleaving.\<close> Every function but one recurses
  structurally: on the regular expression, on lists of entries, plugins and routes.
  The exception is the spec's eviction loop \<open>prune_count\<close>, a \<open>while_option\<close>.
  Its result is \<open>None\<close> if the loop does not stop. The proof that it returns
  \<open>Some\<close> uses the measure \<open>length\<close>, which each iteration decreases by one.
  No fuel is needed, and every definition evaluates by \<open>simp\<close>; the witnesses
  run the worker on concrete events. Interleaving of requests with
  background completions is the order of events in a run; \<open>reachable\<close> quantifies
  over every order. Times are natural-number seconds, as in \<open>maxAgeSeconds\<close>; an age
  is \<open>now - insertedAt\<close>, which is never truncated because the clock only advances.

  \<^bold>\<open>Plan for further work.\<close> The remaining steps, in order:
  (1) the route-level claims restated for every well-formed route table
  (\<open>route_table_wf\<close>), with the configured table as an instance;
  (2) for each condition of \<open>route_table_wf\<close>, a table that violates only that
  condition and a run in which a property of the configured table fails.

  \<^bold>\<open>Not modelled.\<close> These are not modelled: the service-worker lifecycle (install,
  activate, event wiring), the network transport (its outcome is an input of each
  event), HTTP header semantics, request methods in routing, and RegExp features the
  patterns do not use (flags, classes, quantifiers, capture groups). Storage quotas are modelled only as a write that may fail.
  Workbox details the spec does not describe are recorded as findings in
  \<open>PROJECT.json\<close>, not modelled: the rule that a cross-origin URL must match a route
  pattern at position 0, routes limited to GET, read-time freshness checks, and
  request keys that include headers (\<open>Vary\<close>). The spec does not describe these
  rules and they are not in \<open>src/\<close>, so no source exists to model them from.
\<close>

section \<open>Sample inputs\<close>

definition png_request :: request where
  "png_request = \<lparr>req_url = ''/logo.png'', req_method = ''GET'', req_headers = []\<rparr>"

definition ok_response :: response where
  "ok_response = \<lparr>status = 200, resp_headers = [], body = [0x3C, 0x73, 0x76, 0x67]\<rparr>"

definition one_image_world :: world where
  "one_image_world = run_events workbox_routes initial_world [Fetch_event png_request (Fetched ok_response) True]"

definition css_request :: request where
  "css_request = \<lparr>req_url = ''/site.css'', req_method = ''GET'', req_headers = []\<rparr>"

definition one_css_world :: world where
  "one_css_world = run_events workbox_routes initial_world [Fetch_event css_request (Fetched ok_response) True]"

definition fonts_css_request :: request where
  "fonts_css_request =
     \<lparr>req_url = ''https://fonts.googleapis.com/css?family=Roboto'', req_method = ''GET'', req_headers = []\<rparr>"

definition css_revalidating_world :: world where
  "css_revalidating_world = worker_event workbox_routes one_css_world (Fetch_event css_request Network_error True)"

definition image_entry :: "response \<Rightarrow> time \<Rightarrow> request \<Rightarrow> cache_entry" where
  "image_entry r t q = \<lparr>entry_key = request_key q, entry_response = r, inserted_at = t\<rparr>"

definition png_requests :: "nat \<Rightarrow> request list" where
  "png_requests n =
     map (\<lambda>i. \<lparr>req_url = replicate i (CHR ''a'') @ ''.png'', req_method = ''GET'', req_headers = []\<rparr>) [1..<Suc n]"

definition webfont_request :: request where
  "webfont_request =
     \<lparr>req_url = ''https://fonts.gstatic.com/s/roboto/v20/KFOmCnqEu92Fr1Mu4mxK.woff2'', req_method = ''GET'',
      req_headers = []\<rparr>"

definition opaque_response :: response where
  "opaque_response = \<lparr>status = 0, resp_headers = [], body = []\<rparr>"

section \<open>The configured worker\<close>

lemma workbox_names_distinct: "cache_names_distinct workbox_routes"
  by (simp add: workbox_routes_eq cache_names_distinct_def route_opts_def css_strategy_defs
      image_strategy_defs fonts_stylesheets_strategy_defs webfonts_strategy_defs css_cache_name_def
      image_cache_name_def fonts_stylesheets_cache_name_def webfonts_cache_name_def)

lemma workbox_reachable_inv: "reachable workbox_routes w \<Longrightarrow> worker_inv workbox_routes w"
  by (rule reachable_worker_inv [OF workbox_names_distinct])

lemma workbox_route_opts:
  "route_opts ` set workbox_routes =
     {\<lparr>cacheName = css_cache_name, plugins = []\<rparr>,
      \<lparr>cacheName = image_cache_name, plugins = [Expiration_plugin image_expiration]\<rparr>,
      \<lparr>cacheName = fonts_stylesheets_cache_name, plugins = []\<rparr>,
      \<lparr>cacheName = webfonts_cache_name,
       plugins = [Cacheable_response webfonts_statuses, Expiration_plugin webfonts_expiration]\<rparr>}"
  by (simp add: workbox_routes_eq route_opts_def css_strategy_defs image_strategy_defs
      fonts_stylesheets_strategy_defs webfonts_strategy_defs)

lemma workbox_cache_respects:
  assumes "reachable workbox_routes w"
  shows "cache_respects \<lparr>cacheName = css_cache_name, plugins = []\<rparr> (open_cache (caches w) css_cache_name)"
    and "cache_respects \<lparr>cacheName = image_cache_name, plugins = [Expiration_plugin image_expiration]\<rparr>
           (open_cache (caches w) image_cache_name)"
    and "cache_respects \<lparr>cacheName = fonts_stylesheets_cache_name, plugins = []\<rparr>
           (open_cache (caches w) fonts_stylesheets_cache_name)"
    and "cache_respects \<lparr>cacheName = webfonts_cache_name,
           plugins = [Cacheable_response webfonts_statuses, Expiration_plugin webfonts_expiration]\<rparr>
           (open_cache (caches w) webfonts_cache_name)"
proof -
  have r: "\<And>opts. opts \<in> route_opts ` set workbox_routes \<Longrightarrow>
             cache_respects opts (open_cache (caches w) (cacheName opts))"
    by (rule worker_inv_respects [OF workbox_reachable_inv [OF assms]])
  show "cache_respects \<lparr>cacheName = css_cache_name, plugins = []\<rparr> (open_cache (caches w) css_cache_name)"
    using r [of "\<lparr>cacheName = css_cache_name, plugins = []\<rparr>"] by (simp add: workbox_route_opts)
  show "cache_respects \<lparr>cacheName = image_cache_name, plugins = [Expiration_plugin image_expiration]\<rparr>
           (open_cache (caches w) image_cache_name)"
    using r [of "\<lparr>cacheName = image_cache_name, plugins = [Expiration_plugin image_expiration]\<rparr>"]
    by (simp add: workbox_route_opts)
  show "cache_respects \<lparr>cacheName = fonts_stylesheets_cache_name, plugins = []\<rparr>
           (open_cache (caches w) fonts_stylesheets_cache_name)"
    using r [of "\<lparr>cacheName = fonts_stylesheets_cache_name, plugins = []\<rparr>"] by (simp add: workbox_route_opts)
  show "cache_respects \<lparr>cacheName = webfonts_cache_name,
           plugins = [Cacheable_response webfonts_statuses, Expiration_plugin webfonts_expiration]\<rparr>
           (open_cache (caches w) webfonts_cache_name)"
    using r [of "\<lparr>cacheName = webfonts_cache_name,
           plugins = [Cacheable_response webfonts_statuses, Expiration_plugin webfonts_expiration]\<rparr>"]
    by (simp add: workbox_route_opts)
qed

lemma workbox_swr_route:
  assumes "match_route workbox_routes req = Some rt" and "route_handler rt = StaleWhileRevalidate opts"
  shows "(opts = css_options \<and> regex_test css_pattern (req_url req))
       \<or> (opts = fonts_stylesheets_options
          \<and> regex_test fonts_stylesheets_pattern (req_url req) \<and> \<not> regex_test css_pattern (req_url req))"
  using assms
  by (auto simp: workbox_routes_eq match_route_Cons css_strategy_def image_strategy_def
      fonts_stylesheets_strategy_def webfonts_strategy_def split: if_splits)

lemma workbox_pending_plugin_free:
  assumes "reachable workbox_routes w" and "rv \<in> set (pending w)"
  shows "plugins (rv_options rv) = []"
proof -
  obtain rt where "match_route workbox_routes (rv_request rv) = Some rt"
    and "route_handler rt = StaleWhileRevalidate (rv_options rv)"
    using reachable_pending_from_swr [OF assms(1)] assms(2) by (auto simp: pending_from_swr_def)
  from workbox_swr_route [OF this] show ?thesis
    by (auto simp: css_options_def fonts_stylesheets_options_def)
qed

lemma png_request_image: "regex_test image_pattern (req_url png_request)"
  by (simp add: image_pattern_test png_request_def suffix_to_prefix)

lemma one_image_world_eq:
  "one_image_world =
     \<lparr>caches = [image_cache_name \<mapsto> [\<lparr>entry_key = ''/logo.png'', entry_response = ok_response, inserted_at = 0\<rparr>]],
      clock = 0, pending = [], network_calls = 1\<rparr>"
  using png_request_image
  by (simp add: one_image_world_def initial_world_def handle_fetch_matched [OF route_image] image_strategy_defs
      cache_first_def storage_match_def fetch_and_cache_def store_response_def cacheable_def open_cache_def
      cache_put_def image_expiration_def image_max_entries_def expire_entries_def request_key_def
      png_request_def ok_response_def)

lemma one_image_world_reachable: "reachable workbox_routes one_image_world"
  unfolding one_image_world_def by (rule reachable_run [OF reachable.start])

lemma png_request_hit:
  "storage_match (caches one_image_world) image_cache_name (request_key png_request) = Some ok_response"
  by (simp add: one_image_world_eq storage_match_def cache_match_def request_key_def png_request_def)

lemma css_request_css: "regex_test css_pattern (req_url css_request)"
  by (simp add: css_pattern_test css_request_def suffix_to_prefix)

lemma one_css_world_eq:
  "one_css_world =
     \<lparr>caches = [css_cache_name \<mapsto> [\<lparr>entry_key = ''/site.css'', entry_response = ok_response, inserted_at = 0\<rparr>]],
      clock = 0, pending = [], network_calls = 1\<rparr>"
  using css_request_css
  by (simp add: one_css_world_def initial_world_def handle_fetch_matched [OF route_css] css_strategy_defs
      stale_while_revalidate_def storage_match_def fetch_and_cache_def store_response_def cacheable_def
      open_cache_def cache_put_def request_key_def css_request_def ok_response_def)

lemma css_request_hit:
  "storage_match (caches one_css_world) css_cache_name (request_key css_request) = Some ok_response"
  by (simp add: one_css_world_eq storage_match_def cache_match_def request_key_def css_request_def)

section \<open>Serving a request\<close>

text \<open>
  C2: a request for an image already in \<open>image-cache\<close> is answered from the cache
  with no network fetch, and no cache changes (cache-first on a hit).
\<close>

theorem image_hit_no_network:
  assumes "regex_test image_pattern (req_url req)"
    and "storage_match st image_cache_name (request_key req) = Some r"
  shows "handle_fetch workbox_routes now req net write_ok st =
           \<lparr>reply = Inr r, new_storage = st, fetches = 0, spawned = None\<rparr>"
  using assms by (simp add: handle_fetch_matched [OF route_image] image_strategy_defs cache_first_hit)

theorem image_hit_no_network_witness:
  "regex_test image_pattern (req_url png_request)
   \<and> storage_match (caches one_image_world) image_cache_name (request_key png_request) = Some ok_response
   \<and> handle_fetch workbox_routes 5 png_request Network_error True (caches one_image_world) =
        \<lparr>reply = Inr ok_response, new_storage = caches one_image_world, fetches = 0, spawned = None\<rparr>"
  using image_hit_no_network [OF png_request_image png_request_hit] png_request_image png_request_hit
  by simp

text \<open>
  C3: a request for a CSS file already in \<open>css-cache\<close> is answered with the cached
  response at once; the worker's caches are unchanged, exactly one network fetch is issued,
  and it runs as one new background revalidation of that request into \<open>css-cache\<close>
  (stale-while-revalidate on a hit).
\<close>

theorem css_hit_serves_cached_and_revalidates:
  assumes "regex_test css_pattern (req_url req)"
    and "storage_match (caches w) css_cache_name (request_key req) = Some r"
  shows "reply (handle_fetch workbox_routes (clock w) req net write_ok (caches w)) = Inr r
       \<and> worker_event workbox_routes w (Fetch_event req net write_ok) =
           w\<lparr>pending := pending w @ [\<lparr>rv_options = \<lparr>cacheName = css_cache_name, plugins = []\<rparr>, rv_request = req\<rparr>],
             network_calls := network_calls w + 1\<rparr>"
  using assms
  by (simp add: handle_fetch_matched [OF route_css] css_strategy_defs stale_while_revalidate_hit)

theorem css_hit_serves_cached_and_revalidates_witness:
  "regex_test css_pattern (req_url css_request)
   \<and> storage_match (caches one_css_world) css_cache_name (request_key css_request) = Some ok_response
   \<and> reply (handle_fetch workbox_routes (clock one_css_world) css_request Network_error True (caches one_css_world))
       = Inr ok_response
   \<and> pending (worker_event workbox_routes one_css_world (Fetch_event css_request Network_error True)) =
       [\<lparr>rv_options = \<lparr>cacheName = css_cache_name, plugins = []\<rparr>, rv_request = css_request\<rparr>]"
  using css_hit_serves_cached_and_revalidates [OF css_request_css css_request_hit, of Network_error True]
    css_request_css css_request_hit
  by (simp add: one_css_world_eq)

text \<open>
  C10: on every configured route, a miss answered with status 200 whose write succeeds
  returns the response and stores it: reading the key from the route's cache right
  after the request gives the response back (spec section 8, "status 200 always is
  written"). This holds for the two stale-while-revalidate routes as well as for the two
  cache-first routes, whose expiration plugins keep the newest entry.
\<close>

theorem miss_200_stored_on_every_route:
  assumes "match_route workbox_routes req = Some rt"
    and "storage_match st (cacheName (route_opts rt)) (request_key req) = None"
    and "status r = 200"
  shows "reply (handle_fetch workbox_routes now req (Fetched r) True st) = Inr r
       \<and> storage_match (new_storage (handle_fetch workbox_routes now req (Fetched r) True st))
           (cacheName (route_opts rt)) (request_key req) = Some r"
proof -
  have "cacheable (plugins (route_opts rt)) r"
    using match_route_in [OF assms(1)] assms(3)
    by (auto simp: workbox_routes_eq route_opts_def workbox_config_defs cacheable_def)
  moreover have "route_table_wf workbox_routes"
    using workbox_names_distinct unfolding route_table_wf_def
    by (simp add: workbox_routes_eq route_opts_def workbox_config_defs)
  ultimately show ?thesis using handle_fetch_miss_read_back [OF _ assms(1,2)] by blast
qed

theorem miss_200_stored_on_every_route_witness:
  "reply (handle_fetch workbox_routes 0 fonts_css_request (Fetched ok_response) True Map.empty) = Inr ok_response
   \<and> storage_match (new_storage (handle_fetch workbox_routes 0 fonts_css_request (Fetched ok_response) True Map.empty))
       fonts_stylesheets_cache_name (request_key fonts_css_request) = Some ok_response"
proof -
  have m: "match_route workbox_routes fonts_css_request =
             Some \<lparr>route_pattern = fonts_stylesheets_pattern, route_handler = fonts_stylesheets_strategy\<rparr>"
    by (rule route_fonts_stylesheets) (simp_all add: regex_simps suffix_to_prefix fonts_css_request_def)
  from miss_200_stored_on_every_route [OF m, of Map.empty ok_response 0] show ?thesis
    by (simp add: route_opts_def fonts_stylesheets_strategy_defs ok_response_def
        storage_match_def)
qed

text \<open>
  C11: when the network fails and the route that serves the request (if any) has no
  entry for it, the failure is surfaced to the caller as a fetch failure, with no
  synthetic fallback and no cache change, whichever strategy the route uses.
\<close>

theorem miss_network_error_surfaced:
  assumes "\<forall>rt. match_route workbox_routes req = Some rt \<longrightarrow>
             storage_match st (cacheName (route_opts rt)) (request_key req) = None"
  shows "handle_fetch workbox_routes now req Network_error write_ok st =
           \<lparr>reply = Inl Fetch_failed, new_storage = st, fetches = 1, spawned = None\<rparr>"
proof (cases "match_route workbox_routes req")
  case None
  then show ?thesis by (simp add: handle_fetch_unmatched pass_through_def)
next
  case (Some rt)
  with assms have miss: "storage_match st (cacheName (strategy_opts (route_handler rt))) (request_key req) = None"
    by (simp add: route_opts_def)
  show ?thesis
  proof (cases "route_handler rt")
    case (StaleWhileRevalidate opts)
    with Some miss show ?thesis
      by (simp add: handle_fetch_matched stale_while_revalidate_miss fetch_and_cache_error)
  next
    case (CacheFirst opts)
    with Some miss show ?thesis
      by (simp add: handle_fetch_matched cache_first_miss fetch_and_cache_error)
  qed
qed

theorem miss_network_error_surfaced_witness:
  "handle_fetch workbox_routes 0 png_request Network_error True Map.empty =
     \<lparr>reply = Inl Fetch_failed, new_storage = Map.empty, fetches = 1, spawned = None\<rparr>"
  by (rule miss_network_error_surfaced) (simp add: storage_match_def)

text \<open>
  C12: a background revalidation whose network fetch fails is swallowed: completing it
  only removes it from the pending revalidations and changes no cache.
\<close>

theorem revalidation_failure_swallowed:
  assumes "i < length (pending w)"
  shows "worker_event workbox_routes w (Revalidation_done i Network_error write_ok) =
           w\<lparr>pending := remove_nth i (pending w)\<rparr>"
  using assms by (simp add: revalidate_def)

lemma css_revalidating_world_eq:
  "css_revalidating_world =
     one_css_world\<lparr>pending := [\<lparr>rv_options = \<lparr>cacheName = css_cache_name, plugins = []\<rparr>, rv_request = css_request\<rparr>],
                   network_calls := 2\<rparr>"
  using css_request_css css_request_hit
  by (simp add: css_revalidating_world_def handle_fetch_matched [OF route_css] css_strategy_defs
      stale_while_revalidate_hit one_css_world_eq)

theorem revalidation_failure_swallowed_witness:
  "0 < length (pending css_revalidating_world)
   \<and> worker_event workbox_routes css_revalidating_world (Revalidation_done 0 Network_error True) =
       css_revalidating_world\<lparr>pending := []\<rparr>"
proof -
  have "0 < length (pending css_revalidating_world)" by (simp add: css_revalidating_world_eq)
  with revalidation_failure_swallowed [of 0 css_revalidating_world True] show ?thesis
    by (simp add: css_revalidating_world_eq remove_nth_def)
qed

text \<open>
  C22: the first request for a Google Fonts stylesheet (no cached entry, and a URL the
  CSS and image routes do not take) waits for the network: the caller gets the network's
  response, or the fetch failure, and no background task is spawned. A fetched response
  goes through the stylesheet route's store, into \<open>google-fonts-stylesheets\<close>.
\<close>

theorem fonts_stylesheet_miss_awaits_network:
  assumes "regex_test fonts_stylesheets_pattern (req_url req)"
    and "\<not> regex_test css_pattern (req_url req)" and "\<not> regex_test image_pattern (req_url req)"
    and "storage_match st fonts_stylesheets_cache_name (request_key req) = None"
  shows "reply (handle_fetch workbox_routes now req net write_ok st) =
           (case net of Fetched r \<Rightarrow> Inr r | Network_error \<Rightarrow> Inl Fetch_failed)
       \<and> spawned (handle_fetch workbox_routes now req net write_ok st) = None
       \<and> fetches (handle_fetch workbox_routes now req net write_ok st) = 1
       \<and> new_storage (handle_fetch workbox_routes now req net write_ok st) =
           (case net of Fetched r \<Rightarrow> store_response fonts_stylesheets_options now write_ok (request_key req) r st
                      | Network_error \<Rightarrow> st)"
  using assms
  by (cases net) (simp_all add: handle_fetch_matched [OF route_fonts_stylesheets] fonts_stylesheets_strategy_defs
      stale_while_revalidate_miss fetch_and_cache_def)

theorem fonts_stylesheet_miss_awaits_network_witness:
  "reply (handle_fetch workbox_routes 0 fonts_css_request (Fetched ok_response) True Map.empty) = Inr ok_response
   \<and> spawned (handle_fetch workbox_routes 0 fonts_css_request (Fetched ok_response) True Map.empty) = None
   \<and> fetches (handle_fetch workbox_routes 0 fonts_css_request (Fetched ok_response) True Map.empty) = 1
   \<and> new_storage (handle_fetch workbox_routes 0 fonts_css_request (Fetched ok_response) True Map.empty) =
       store_response fonts_stylesheets_options 0 True (request_key fonts_css_request) ok_response Map.empty"
proof -
  have u: "req_url fonts_css_request = ''https://fonts.googleapis.com/css?family=Roboto''"
    by (simp add: fonts_css_request_def)
  have "regex_test fonts_stylesheets_pattern (req_url fonts_css_request)"
    and "\<not> regex_test css_pattern (req_url fonts_css_request)"
    and "\<not> regex_test image_pattern (req_url fonts_css_request)"
    unfolding u by (simp_all add: regex_simps suffix_to_prefix)
  moreover have "storage_match Map.empty fonts_stylesheets_cache_name (request_key fonts_css_request) = None"
    by (simp add: storage_match_def)
  ultimately show ?thesis
    using fonts_stylesheet_miss_awaits_network [of fonts_css_request Map.empty 0 "Fetched ok_response" True]
    by simp
qed

text \<open>
  C24: when the storage write fails (quota exceeded), a request that no cache can answer
  still gets the network's response, and no cache changes: the failure is not fatal.
\<close>

theorem write_failure_non_fatal:
  assumes "\<forall>rt. match_route workbox_routes req = Some rt \<longrightarrow>
             storage_match st (cacheName (route_opts rt)) (request_key req) = None"
  shows "handle_fetch workbox_routes now req (Fetched r) False st =
           \<lparr>reply = Inr r, new_storage = st, fetches = 1, spawned = None\<rparr>"
proof (cases "match_route workbox_routes req")
  case None
  then show ?thesis by (simp add: handle_fetch_unmatched pass_through_def)
next
  case (Some rt)
  with assms have miss: "storage_match st (cacheName (strategy_opts (route_handler rt))) (request_key req) = None"
    by (simp add: route_opts_def)
  then show ?thesis using Some
    by (cases "route_handler rt")
      (simp_all add: handle_fetch_matched stale_while_revalidate_miss cache_first_miss fetch_and_cache_fetched
        store_response_write_failed)
qed

theorem write_failure_non_fatal_witness:
  "handle_fetch workbox_routes 0 png_request (Fetched ok_response) False Map.empty =
     \<lparr>reply = Inr ok_response, new_storage = Map.empty, fetches = 1, spawned = None\<rparr>"
  by (rule write_failure_non_fatal) (simp add: storage_match_def)

text \<open>
  C25: a webfont fetched from \<open>fonts.gstatic.com\<close> whose response is opaque (status 0)
  is stored, because the route's cacheable-response plugin lists status 0, and reading
  it back gives the same response.
\<close>

theorem webfont_opaque_stored:
  assumes "prefix ''https://fonts.gstatic.com'' (req_url req)"
    and "\<not> regex_test css_pattern (req_url req)" and "\<not> regex_test image_pattern (req_url req)"
    and "storage_match st webfonts_cache_name (request_key req) = None"
    and "status r \<in> set webfonts_statuses"
  shows "storage_match (new_storage (handle_fetch workbox_routes now req (Fetched r) True st))
           webfonts_cache_name (request_key req) = Some r"
proof -
  let ?opts = "\<lparr>cacheName = webfonts_cache_name,
                plugins = [Cacheable_response webfonts_statuses, Expiration_plugin webfonts_expiration]\<rparr>"
  have route: "match_route workbox_routes req =
                 Some \<lparr>route_pattern = webfonts_pattern, route_handler = webfonts_strategy\<rparr>"
  proof -
    have "\<not> prefix ''https://fonts.googleapis.com'' (req_url req)"
      using assms(1) prefixes_disjoint [of "''https://fonts.googleapis.com''" "''https://fonts.gstatic.com''"]
      by auto
    with assms(1-3) show ?thesis
      by (simp add: workbox_routes_eq match_route_Cons regex_simps)
  qed
  have "cacheable (plugins ?opts) r" using assms(5) by (simp add: cacheable_def)
  moreover have "keeps_newest (plugins ?opts)" by (simp add: keeps_newest_def webfonts_expiration_def)
  ultimately have "storage_match (store_response ?opts now True (request_key req) r st) (cacheName ?opts)
                     (request_key req) = Some r"
    by (rule store_response_match)
  with assms(4) route show ?thesis
    by (simp add: handle_fetch_matched webfonts_strategy_defs cache_first_miss fetch_and_cache_fetched)
qed

theorem webfont_opaque_stored_witness:
  "storage_match (new_storage (handle_fetch workbox_routes 0 webfont_request (Fetched opaque_response) True Map.empty))
     webfonts_cache_name (request_key webfont_request) = Some opaque_response"
proof (rule webfont_opaque_stored)
  have u: "req_url webfont_request = ''https://fonts.gstatic.com/s/roboto/v20/KFOmCnqEu92Fr1Mu4mxK.woff2''"
    by (simp add: webfont_request_def)
  show "prefix ''https://fonts.gstatic.com'' (req_url webfont_request)"
    and "\<not> regex_test css_pattern (req_url webfont_request)"
    and "\<not> regex_test image_pattern (req_url webfont_request)"
    unfolding u by (simp_all add: regex_simps suffix_to_prefix)
  show "storage_match Map.empty webfonts_cache_name (request_key webfont_request) = None"
    by (simp add: storage_match_def)
  show "status opaque_response \<in> set webfonts_statuses"
    by (simp add: opaque_response_def webfonts_statuses_def)
qed

section \<open>Expiration of the image cache\<close>

text \<open>
  C6: the image route's expiration pass removes an entry inserted at \<open>t0\<close> when run
  at \<open>t0 + 604801\<close> and keeps it at \<open>t0 + 604800\<close> and \<open>t0 + 604799\<close> (one week is
  604800 seconds; only an age strictly above it is expired), as long as the count limit
  does not act.
\<close>

theorem image_expiration_age_boundary:
  assumes "e \<in> set es" and "length es \<le> image_max_entries" and "inserted_at e = t0"
  shows "e \<notin> set (expire_entries image_expiration (t0 + 604801) es)
       \<and> e \<in> set (expire_entries image_expiration (t0 + 604800) es)
       \<and> e \<in> set (expire_entries image_expiration (t0 + 604799) es)"
proof -
  have short: "length (filter P es) - image_max_entries = 0" for P
    using assms(2) length_filter_le [of P es] by arith
  show ?thesis
    using assms(1,3) short
    by (simp add: expire_entries_def image_expiration_def image_max_age_seconds_def)
qed

theorem image_expiration_age_boundary_witness:
  "\<lparr>entry_key = ''/logo.png'', entry_response = ok_response, inserted_at = 100\<rparr> \<notin>
     set (expire_entries image_expiration (100 + 604801)
       [\<lparr>entry_key = ''/logo.png'', entry_response = ok_response, inserted_at = 100\<rparr>])
   \<and> \<lparr>entry_key = ''/logo.png'', entry_response = ok_response, inserted_at = 100\<rparr> \<in>
     set (expire_entries image_expiration (100 + 604800)
       [\<lparr>entry_key = ''/logo.png'', entry_response = ok_response, inserted_at = 100\<rparr>])
   \<and> \<lparr>entry_key = ''/logo.png'', entry_response = ok_response, inserted_at = 100\<rparr> \<in>
     set (expire_entries image_expiration (100 + 604799)
       [\<lparr>entry_key = ''/logo.png'', entry_response = ok_response, inserted_at = 100\<rparr>])"
  by (rule image_expiration_age_boundary) (simp_all add: image_max_entries_def)

text \<open>
  C20: on an image cache whose insertion times are in order, the expiration pass keeps a
  suffix of it (it removes only the oldest entries), keeps at most 20 entries, and keeps
  none older than a week.
\<close>

theorem image_expiration_removes_oldest:
  assumes "sorted (map inserted_at es)"
  shows "suffix (expire_entries image_expiration now es) es
       \<and> length (expire_entries image_expiration now es) \<le> image_max_entries
       \<and> (\<forall>e \<in> set (expire_entries image_expiration now es). now - inserted_at e \<le> image_max_age_seconds)"
  using expire_entries_suffix [OF assms] expire_entries_count [of image_expiration]
    expire_entries_age [of image_expiration]
  by (simp add: image_expiration_def)

theorem image_expiration_removes_oldest_witness:
  "suffix (expire_entries image_expiration 700000
      [\<lparr>entry_key = ''/a.png'', entry_response = ok_response, inserted_at = 0\<rparr>,
       \<lparr>entry_key = ''/b.png'', entry_response = ok_response, inserted_at = 200000\<rparr>])
      [\<lparr>entry_key = ''/a.png'', entry_response = ok_response, inserted_at = 0\<rparr>,
       \<lparr>entry_key = ''/b.png'', entry_response = ok_response, inserted_at = 200000\<rparr>]
   \<and> expire_entries image_expiration 700000
      [\<lparr>entry_key = ''/a.png'', entry_response = ok_response, inserted_at = 0\<rparr>,
       \<lparr>entry_key = ''/b.png'', entry_response = ok_response, inserted_at = 200000\<rparr>]
     = [\<lparr>entry_key = ''/b.png'', entry_response = ok_response, inserted_at = 200000\<rparr>]"
proof -
  have "suffix (expire_entries image_expiration 700000
      [\<lparr>entry_key = ''/a.png'', entry_response = ok_response, inserted_at = 0\<rparr>,
       \<lparr>entry_key = ''/b.png'', entry_response = ok_response, inserted_at = 200000\<rparr>])
      [\<lparr>entry_key = ''/a.png'', entry_response = ok_response, inserted_at = 0\<rparr>,
       \<lparr>entry_key = ''/b.png'', entry_response = ok_response, inserted_at = 200000\<rparr>]"
    using image_expiration_removes_oldest by simp
  then show ?thesis
    by (simp add: expire_entries_def image_expiration_def image_max_entries_def image_max_age_seconds_def)
qed

section \<open>The spec's eviction loop\<close>

text \<open>
  C7: in every reachable state of the configured worker, the expiration pass that the
  image route runs after a write gives what the spec's algorithm gives: age pruning,
  then removing the entry with the least insertion time (the earliest inserted among
  equal times), one at a time, while more than 20 remain. The store keeps insertion
  times in order, so evicting by position evicts by age.
\<close>

theorem image_expiration_equals_eviction_loop:
  assumes "reachable workbox_routes w"
  shows "expire_reference image_expiration (clock w) (cache_put k r (clock w) (open_cache (caches w) image_cache_name))
       = Some (expire_entries image_expiration (clock w) (cache_put k r (clock w) (open_cache (caches w) image_cache_name)))"
proof -
  have "storage_wf (clock w) (caches w)" using workbox_reachable_inv [OF assms] by (simp add: worker_inv_def)
  then have "cache_wf (cache_put k r (clock w) (open_cache (caches w) image_cache_name))"
    by (auto dest: storage_wf_open_cache intro: cache_put_wf)
  then show ?thesis by (simp add: cache_wf_def expire_reference_sorted)
qed

theorem image_expiration_equals_eviction_loop_witness:
  "expire_reference image_expiration 0 (cache_put ''/b.png'' ok_response 0 (open_cache (caches one_image_world) image_cache_name))
   = Some (expire_entries image_expiration 0 (cache_put ''/b.png'' ok_response 0 (open_cache (caches one_image_world) image_cache_name)))"
  using image_expiration_equals_eviction_loop [OF one_image_world_reachable, of "''/b.png''" ok_response]
  by (simp add: one_image_world_eq)

section \<open>Background revalidations refresh their entries\<close>

text \<open>
  C21: every background revalidation in flight refreshes its entry. From a reachable
  state, let the pending revalidations complete in order, each with a status-200 answer
  from the network (\<open>respond k\<close> for its key) and a successful write. Afterwards
  none is pending, and for each of them the cache of its route holds the network's
  answer for its key. The pending revalidations belong to the CSS and Google Fonts
  stylesheet routes, which have no expiration plugin, so no later write evicts an
  earlier one (spec sections 4.3 and 5).
\<close>

theorem pending_revalidations_refresh:
  assumes "reachable workbox_routes w" and "\<forall>k. status (respond k) = 200"
  shows "pending (run_events workbox_routes w (revalidation_events respond (pending w))) = []
       \<and> (\<forall>rv \<in> set (pending w).
            storage_match (caches (run_events workbox_routes w (revalidation_events respond (pending w))))
              (cacheName (rv_options rv)) (request_key (rv_request rv)) = Some (respond (request_key (rv_request rv))))"
  using run_revalidations_refresh [of w "pending w" respond workbox_routes]
    workbox_pending_plugin_free [OF assms(1)] assms(2) by blast

theorem pending_revalidations_refresh_witness:
  "pending (run_events workbox_routes css_revalidating_world
     (revalidation_events (\<lambda>k. ok_response\<lparr>body := []\<rparr>) (pending css_revalidating_world))) = []
   \<and> storage_match (caches (run_events workbox_routes css_revalidating_world
       (revalidation_events (\<lambda>k. ok_response\<lparr>body := []\<rparr>) (pending css_revalidating_world))))
       css_cache_name ''/site.css'' = Some (ok_response\<lparr>body := []\<rparr>)"
proof -
  have r: "reachable workbox_routes css_revalidating_world"
    unfolding css_revalidating_world_def one_css_world_def
    by (rule reachable.step [OF reachable_run [OF reachable.start]])
  have "\<forall>k. status ((\<lambda>k. ok_response\<lparr>body := []\<rparr>) k) = 200" by (simp add: ok_response_def)
  from pending_revalidations_refresh [OF r this] show ?thesis
    by (simp add: css_revalidating_world_eq css_request_def request_key_def del: worker_event.simps)
qed

section \<open>Stale content until the revalidation completes\<close>

lemma css_hit_event:
  assumes "regex_test css_pattern (req_url req)"
    and "storage_match (caches w) css_cache_name (request_key req) = Some r"
  shows "worker_event workbox_routes w (Fetch_event req net write_ok) =
           w\<lparr>pending := pending w @ [\<lparr>rv_options = css_options, rv_request = req\<rparr>],
             network_calls := network_calls w + 1\<rparr>"
    and "event_reply workbox_routes w (Fetch_event req net write_ok) = Some (Inr r)"
  using assms by (simp_all add: handle_fetch_matched [OF route_css] css_strategy_defs
      stale_while_revalidate_hit)

lemma css_options_keeps_newest: "keeps_newest (plugins css_options)"
  by (simp add: css_options_def keeps_newest_def)

text \<open>
  C26: ordering of a stale-while-revalidate route. The CSS cache holds \<open>r_old\<close> for
  a key. Two requests for it are answered with \<open>r_old\<close>, and each starts a background
  revalidation. When the first revalidation completes with a status-200 \<open>r_new\<close>, the
  next request is answered with \<open>r_new\<close>. The completion itself answers nobody. The
  fresh response is visible only to reads after the completion (spec section 5).
\<close>

theorem css_stale_until_revalidated:
  assumes "regex_test css_pattern (req_url req)"
    and "storage_match (caches w) css_cache_name (request_key req) = Some r_old"
    and "status r_new = 200"
  shows "run_replies workbox_routes w
           [Fetch_event req net_a write_a, Fetch_event req net_b write_b,
            Revalidation_done (length (pending w)) (Fetched r_new) True, Fetch_event req net_c write_c]
         = [Some (Inr r_old), Some (Inr r_old), None, Some (Inr r_new)]"
proof -
  let ?rv = "\<lparr>rv_options = css_options, rv_request = req\<rparr>"
  let ?w1 = "worker_event workbox_routes w (Fetch_event req net_a write_a)"
  let ?w2 = "worker_event workbox_routes ?w1 (Fetch_event req net_b write_b)"
  let ?w3 = "worker_event workbox_routes ?w2 (Revalidation_done (length (pending w)) (Fetched r_new) True)"
  have w1: "?w1 = w\<lparr>pending := pending w @ [?rv], network_calls := network_calls w + 1\<rparr>"
    and e1: "event_reply workbox_routes w (Fetch_event req net_a write_a) = Some (Inr r_old)"
    using css_hit_event [OF assms(1,2)] by blast+
  have hit1: "storage_match (caches ?w1) css_cache_name (request_key req) = Some r_old"
    using assms(2) unfolding w1 by simp
  have w2: "?w2 = ?w1\<lparr>pending := pending ?w1 @ [?rv], network_calls := network_calls ?w1 + 1\<rparr>"
    and e2: "event_reply workbox_routes ?w1 (Fetch_event req net_b write_b) = Some (Inr r_old)"
    using css_hit_event [OF assms(1) hit1] by blast+
  have "caches ?w3 = store_response css_options (clock w) True (request_key req) r_new (caches w)"
    unfolding w2 unfolding w1 by (simp add: nth_append revalidate_def)
  then have "storage_match (caches ?w3) css_cache_name (request_key req) = Some r_new"
    using store_response_match [of css_options r_new, OF _ css_options_keeps_newest] assms(3)
    by (simp add: cacheable_def css_options_def)
  from css_hit_event(2) [OF assms(1) this] e1 e2 show ?thesis by (simp del: worker_event.simps)
qed

theorem css_stale_until_revalidated_witness:
  "run_replies workbox_routes one_css_world
     [Fetch_event css_request Network_error True, Fetch_event css_request Network_error True,
      Revalidation_done 0 (Fetched (ok_response\<lparr>body := []\<rparr>)) True, Fetch_event css_request Network_error True]
   = [Some (Inr ok_response), Some (Inr ok_response), None, Some (Inr (ok_response\<lparr>body := []\<rparr>))]"
proof -
  have "pending one_css_world = []" by (simp add: one_css_world_eq)
  moreover have "storage_match (caches one_css_world) css_cache_name (request_key css_request) = Some ok_response"
    by (rule css_request_hit)
  ultimately show ?thesis
    using css_stale_until_revalidated [OF css_request_css, of one_css_world ok_response "ok_response\<lparr>body := []\<rparr>"]
    by (simp add: ok_response_def)
qed

section \<open>The CSS cache as a map\<close>

text \<open>
  C19: the CSS route's store refines the abstract map from keys to responses: writing a
  status-200 response under a key is a map update of \<open>css-cache\<close>, and any other
  status leaves the map unchanged (the route has no expiration plugin, so nothing else
  is removed).
\<close>

theorem css_store_refines_map_update:
  "storage_match (store_response (strategy_opts css_strategy) now True k r st) css_cache_name =
     (if status r = 200 then (storage_match st css_cache_name)(k \<mapsto> r) else storage_match st css_cache_name)"
  by (rule ext)
    (simp add: storage_match_open_cache open_cache_store_response css_strategy_defs cacheable_def
      cache_put_match)

section \<open>A sequence of image writes\<close>

lemma clock_fetch_event [simp]: "clock (worker_event rts w (Fetch_event req net write_ok)) = clock w"
  by (simp add: Let_def)

lemma image_miss_write:
  assumes "regex_test image_pattern (req_url x)" and "status r = 200"
    and old: "open_cache (caches W) image_cache_name = old"
    and fresh: "request_key x \<notin> entry_key ` set old"
    and now: "\<forall>e \<in> set old. inserted_at e = clock W"
  shows "open_cache (caches (worker_event workbox_routes W (Fetch_event x (Fetched r) True))) image_cache_name
         = drop (length (old @ [image_entry r (clock W) x]) - image_max_entries) (old @ [image_entry r (clock W) x])"
proof -
  have miss: "storage_match (caches W) image_cache_name (request_key x) = None"
    using fresh by (simp add: storage_match_open_cache old cache_match_None_iff)
  have "open_cache (caches (worker_event workbox_routes W (Fetch_event x (Fetched r) True))) image_cache_name
        = expire_entries image_expiration (clock W) (old @ [image_entry r (clock W) x])"
    using assms(1,2) miss fresh
    by (simp add: Let_def handle_fetch_matched [OF route_image] image_strategy_defs cache_first_miss
        fetch_and_cache_fetched open_cache_store_response cacheable_def old cache_put_fresh image_entry_def)
  also have "\<dots> = drop (length (old @ [image_entry r (clock W) x]) - image_max_entries)
                       (old @ [image_entry r (clock W) x])"
    using now by (simp add: expire_entries_all_now image_expiration_def image_entry_def)
  finally show ?thesis .
qed

lemma image_writes_window:
  assumes "distinct (map request_key reqs)"
    and "\<forall>q \<in> set reqs. regex_test image_pattern (req_url q)"
    and "status r = 200"
    and "open_cache (caches w) image_cache_name = []"
  shows "open_cache (caches (run_events workbox_routes w (map (\<lambda>q. Fetch_event q (Fetched r) True) reqs)))
           image_cache_name
         = drop (length reqs - image_max_entries) (map (image_entry r (clock w)) reqs)
       \<and> clock (run_events workbox_routes w (map (\<lambda>q. Fetch_event q (Fetched r) True) reqs)) = clock w"
  using assms(1,2)
proof (induction reqs rule: rev_induct)
  case Nil
  with assms(4) show ?case by simp
next
  case (snoc x xs)
  let ?W = "run_events workbox_routes w (map (\<lambda>q. Fetch_event q (Fetched r) True) xs)"
  let ?old = "drop (length xs - image_max_entries) (map (image_entry r (clock w)) xs)"
  from snoc.prems snoc.IH have old: "open_cache (caches ?W) image_cache_name = ?old"
    and clk: "clock ?W = clock w" by auto
  from snoc.prems have x: "regex_test image_pattern (req_url x)" by simp
  have old_sub: "set ?old \<subseteq> image_entry r (clock w) ` set xs"
    by (auto dest: in_set_dropD)
  with snoc.prems have fresh: "request_key x \<notin> entry_key ` set ?old"
    by (force simp: image_entry_def)
  have now: "\<forall>e \<in> set ?old. inserted_at e = clock ?W"
    using old_sub clk by (auto simp: image_entry_def)
  have "open_cache (caches (worker_event workbox_routes ?W (Fetch_event x (Fetched r) True))) image_cache_name
        = drop (length (?old @ [image_entry r (clock w) x]) - image_max_entries) (?old @ [image_entry r (clock w) x])"
    using image_miss_write [OF x assms(3) old fresh now] by (simp only: clk)
  also have "\<dots> = drop (length (xs @ [x]) - image_max_entries) (map (image_entry r (clock w)) (xs @ [x]))"
    using last_n_append [of "map (image_entry r (clock w)) xs" image_max_entries "[image_entry r (clock w) x]"]
    by simp
  finally have cache': "open_cache (caches (worker_event workbox_routes ?W (Fetch_event x (Fetched r) True)))
      image_cache_name = drop (length (xs @ [x]) - image_max_entries) (map (image_entry r (clock w)) (xs @ [x]))" .
  have clock': "clock (worker_event workbox_routes ?W (Fetch_event x (Fetched r) True)) = clock w"
    using clk by (simp add: Let_def)
  have run_snoc: "run_events workbox_routes w (map (\<lambda>q. Fetch_event q (Fetched r) True) (xs @ [x])) =
      worker_event workbox_routes ?W (Fetch_event x (Fetched r) True)"
    by (simp add: run_events_append del: worker_event.simps)
  show ?case unfolding run_snoc using cache' clock' by (rule conjI)
qed

lemma png_requests_distinct: "distinct (map request_key (png_requests n))"
proof -
  have "inj_on (\<lambda>i. replicate i (CHR ''a'') @ ''.png'') A" for A
    by (rule inj_onI) (drule arg_cong [of _ _ length], simp)
  then show ?thesis by (simp add: png_requests_def request_key_def comp_def distinct_map)
qed

lemma png_requests_images: "\<forall>q \<in> set (png_requests n). regex_test image_pattern (req_url q)"
  by (auto simp: png_requests_def image_pattern_test)

lemma length_png_requests: "length (png_requests n) = n"
  by (simp add: png_requests_def)

text \<open>
  C5: writing a sequence of distinct images one after the other (each a miss answered
  with status 200, all at the same time, starting from an empty \<open>image-cache\<close>) leaves
  exactly the most recent \<open>min 20 n\<close> of them in the cache, in order: with 25 writes,
  the last 20.
\<close>

theorem image_writes_keep_last_twenty:
  assumes "distinct (map request_key reqs)"
    and "\<forall>q \<in> set reqs. regex_test image_pattern (req_url q)"
    and "status r = 200"
    and "open_cache (caches w) image_cache_name = []"
  shows "map entry_key (open_cache (caches (run_events workbox_routes w
            (map (\<lambda>q. Fetch_event q (Fetched r) True) reqs))) image_cache_name)
         = drop (length reqs - image_max_entries) (map request_key reqs)"
  using image_writes_window [OF assms] by (simp add: drop_map image_entry_def comp_def)

theorem image_writes_keep_last_twenty_witness:
  "map entry_key (open_cache (caches (run_events workbox_routes initial_world
       (map (\<lambda>q. Fetch_event q (Fetched ok_response) True) (png_requests 25)))) image_cache_name)
   = drop 5 (map request_key (png_requests 25))"
proof -
  have "status ok_response = 200" by (simp add: ok_response_def)
  moreover have "open_cache (caches initial_world) image_cache_name = []"
    by (simp add: initial_world_def open_cache_def)
  ultimately show ?thesis
    using image_writes_keep_last_twenty [where reqs = "png_requests 25" and r = ok_response and w = initial_world,
        OF png_requests_distinct png_requests_images]
    by (simp only: length_png_requests image_max_entries_def) simp
qed

section \<open>Invariants of every reachable state\<close>

text \<open>
  C4: in every state the configured worker can reach, the image cache holds at most
  \<open>maxEntries = 20\<close> entries.
\<close>

theorem reachable_image_cache_bounded:
  assumes "reachable workbox_routes w"
  shows "length (open_cache (caches w) image_cache_name) \<le> image_max_entries"
  using workbox_cache_respects(2) [OF assms] by (simp add: cache_respects_def image_expiration_def)

theorem reachable_image_cache_bounded_witness:
  "reachable workbox_routes one_image_world
   \<and> length (open_cache (caches one_image_world) image_cache_name) \<le> image_max_entries"
  using reachable_image_cache_bounded [OF one_image_world_reachable] one_image_world_reachable by simp

text \<open>
  C8: in every reachable state, the CSS, image and Google Fonts stylesheet caches hold
  only responses with status 200, and the webfont cache only responses whose status is
  listed by its cacheable-response plugin (0 or 200): a 404 is never stored.
\<close>

theorem reachable_entries_accepted:
  assumes "reachable workbox_routes w"
  shows "(\<forall>e \<in> set (open_cache (caches w) css_cache_name). status (entry_response e) = 200)
       \<and> (\<forall>e \<in> set (open_cache (caches w) image_cache_name). status (entry_response e) = 200)
       \<and> (\<forall>e \<in> set (open_cache (caches w) fonts_stylesheets_cache_name). status (entry_response e) = 200)
       \<and> (\<forall>e \<in> set (open_cache (caches w) webfonts_cache_name). status (entry_response e) \<in> set webfonts_statuses)"
  using workbox_cache_respects [OF assms]
  by (simp add: cache_respects_def cacheable_def list_all_iff)

theorem reachable_entries_accepted_witness:
  "reachable workbox_routes one_image_world
   \<and> map (\<lambda>e. status (entry_response e)) (open_cache (caches one_image_world) image_cache_name) = [200]"
proof -
  have "\<forall>e \<in> set (open_cache (caches one_image_world) image_cache_name). status (entry_response e) = 200"
    using reachable_entries_accepted [OF one_image_world_reachable] by blast
  moreover have "length (open_cache (caches one_image_world) image_cache_name) = 1"
    by (simp add: one_image_world_eq open_cache_def)
  ultimately show ?thesis
    using one_image_world_reachable by (cases "open_cache (caches one_image_world) image_cache_name") auto
qed

text \<open>
  C17: in every reachable state every named cache has distinct keys and insertion times
  in insertion order, none later than the clock.
\<close>

theorem reachable_storage_wf:
  assumes "reachable workbox_routes w"
  shows "storage_wf (clock w) (caches w)"
  using workbox_reachable_inv [OF assms] by (simp add: worker_inv_def)

theorem reachable_storage_wf_witness:
  "reachable workbox_routes one_image_world \<and> storage_wf (clock one_image_world) (caches one_image_world)"
  using reachable_storage_wf [OF one_image_world_reachable] one_image_world_reachable by simp

text \<open>
  C18: only the two stale-while-revalidate routes ever have background revalidations in
  flight. Every pending revalidation carries the options of the CSS route and a request
  for a \<open>.css\<close> URL, or the options of the Google Fonts stylesheet route and a
  request that route serves (a \<open>fonts.googleapis.com\<close> URL not ending in \<open>.css\<close>).
  The cache-first routes never start one.
\<close>

theorem pending_revalidations_swr_only:
  assumes "reachable workbox_routes w" and "rv \<in> set (pending w)"
  shows "(rv_options rv = css_options \<and> regex_test css_pattern (req_url (rv_request rv)))
       \<or> (rv_options rv = fonts_stylesheets_options
          \<and> regex_test fonts_stylesheets_pattern (req_url (rv_request rv))
          \<and> \<not> regex_test css_pattern (req_url (rv_request rv)))"
proof -
  obtain rt where "match_route workbox_routes (rv_request rv) = Some rt"
    and "route_handler rt = StaleWhileRevalidate (rv_options rv)"
    using reachable_pending_from_swr [OF assms(1)] assms(2) by (auto simp: pending_from_swr_def)
  then show ?thesis by (rule workbox_swr_route)
qed

theorem pending_revalidations_swr_only_witness:
  "rv_options (hd (pending css_revalidating_world)) = css_options
   \<and> regex_test css_pattern (req_url (rv_request (hd (pending css_revalidating_world))))"
proof -
  have r: "reachable workbox_routes css_revalidating_world"
    unfolding css_revalidating_world_def one_css_world_def
    by (rule reachable.step [OF reachable_run [OF reachable.start]])
  have "hd (pending css_revalidating_world) \<in> set (pending css_revalidating_world)"
    by (simp add: css_revalidating_world_eq)
  from pending_revalidations_swr_only [OF r this] show ?thesis
    by (auto simp: css_revalidating_world_eq css_request_def fonts_stylesheets_pattern_test)
qed

section \<open>The worker implements its abstract specification\<close>

text \<open>
  C9: the configured worker refines the abstract specification of theory
  \<open>Worker_Spec\<close>, in which each cache is a map and the pending revalidations are a
  multiset, and which counts network fetches. Every reachable state of the worker reads
  as a reachable state of the specification. From such a state, every event (a request, the completion of a pending
  revalidation, time passing) is a step the specification allows.
\<close>

theorem worker_refines_spec:
  assumes "reachable workbox_routes w"
  shows "spec_reachable workbox_routes (abs_world w)
       \<and> spec_step workbox_routes (abs_world w) (abs_event w e) (abs_world (worker_event workbox_routes w e))"
proof
  show "spec_reachable workbox_routes (abs_world w)"
    using workbox_names_distinct assms by (rule reachable_refines)
  show "spec_step workbox_routes (abs_world w) (abs_event w e) (abs_world (worker_event workbox_routes w e))"
    using workbox_reachable_inv [OF assms] by (simp add: worker_inv_def worker_event_refines)
qed

theorem worker_refines_spec_witness:
  "spec_reachable workbox_routes (abs_world one_css_world)
   \<and> spec_step workbox_routes (abs_world one_css_world) (Intercept css_request Network_error True)
       (abs_world (worker_event workbox_routes one_css_world (Fetch_event css_request Network_error True)))"
proof -
  have "reachable workbox_routes one_css_world"
    unfolding one_css_world_def by (rule reachable_run [OF reachable.start])
  from worker_refines_spec [OF this, of "Fetch_event css_request Network_error True"] show ?thesis
    by simp
qed

end
